theory Spec2Isabelle
  imports Main
begin

section \<open>Strings\<close>

text \<open>
  Python strings are modelled as \<open>string\<close> (lists of characters). The three string
  operations of \<^verbatim>\<open>builder.py\<close> are \<^verbatim>\<open>str.split\<close> on a one-character separator,
  \<^verbatim>\<open>str.replace\<close> and \<^verbatim>\<open>str.strip\<close>.
\<close>

text \<open>\<^verbatim>\<open>s.split(sep)\<close> for a one-character separator: never the empty list.\<close>

fun split_on :: "char \<Rightarrow> string \<Rightarrow> string list" where
  "split_on sep [] = [[]]"
| "split_on sep (c # cs) =
     (if c = sep then [] # split_on sep cs
      else (case split_on sep cs of
              [] \<Rightarrow> [[c]]
            | seg # segs \<Rightarrow> (c # seg) # segs))"

text \<open>
  \<^verbatim>\<open>s.replace(old, new)\<close>: every non-overlapping occurrence of \<open>old\<close>, scanning from
  the left. For the empty \<open>old\<close> Python puts \<open>new\<close> before every character and at the
  end.
\<close>

fun str_replace :: "string \<Rightarrow> string \<Rightarrow> string \<Rightarrow> string" where
  "str_replace old new [] = (if old = [] then new else [])"
| "str_replace old new (c # cs) =
     (if old = [] then new @ c # str_replace old new cs
      else if take (length old) (c # cs) = old
           then new @ str_replace old new (drop (length old - 1) cs)
           else c # str_replace old new cs)"

text \<open>The characters \<^verbatim>\<open>str.strip()\<close> removes, within ASCII.\<close>

definition is_space :: "char \<Rightarrow> bool" where
  "is_space c =
     (c \<in> set [CHR 0x20, CHR 0x09, CHR 0x0A, CHR 0x0B, CHR 0x0C, CHR 0x0D,
                CHR 0x1C, CHR 0x1D, CHR 0x1E, CHR 0x1F])"

definition strip :: "string \<Rightarrow> string" where
  "strip s = rev (dropWhile is_space (rev (dropWhile is_space s)))"

text \<open>Lower-casing of ASCII letters, as case-insensitive name matching uses it.\<close>

definition lower_char :: "char \<Rightarrow> char" where
  "lower_char c =
     (case map_of (zip ''ABCDEFGHIJKLMNOPQRSTUVWXYZ'' ''abcdefghijklmnopqrstuvwxyz'') c of
        None \<Rightarrow> c
      | Some d \<Rightarrow> d)"

definition norm_name :: "bool \<Rightarrow> string \<Rightarrow> string" where
  "norm_name ci s = (if ci then map lower_char s else s)"

text \<open>
  \<^verbatim>\<open>fnmatch\<close> for the patterns of the program (\<^verbatim>\<open>makefile*\<close>, \<^verbatim>\<open>*\<close>, \<^verbatim>\<open>*.exe\<close>,
  \<^verbatim>\<open>*.dll\<close>, \<^verbatim>\<open>*.so\<close>, \<^verbatim>\<open>*.dylib\<close>): \<^verbatim>\<open>*\<close> matches any run of characters, every
  other character of these patterns matches itself.
\<close>

fun wild_match :: "string \<Rightarrow> string \<Rightarrow> bool" where
  "wild_match [] [] = True"
| "wild_match [] (c # cs) = False"
| "wild_match (p # ps) [] = (p = CHR ''*'' \<and> wild_match ps [])"
| "wild_match (p # ps) (c # cs) =
     (if p = CHR ''*'' then wild_match ps (c # cs) \<or> wild_match (p # ps) cs
      else p = c \<and> wild_match ps cs)"

definition fnmatch :: "bool \<Rightarrow> string \<Rightarrow> string \<Rightarrow> bool" where
  "fnmatch ci pat name = wild_match (norm_name ci pat) (norm_name ci name)"

section \<open>Paths and the file system\<close>

text \<open>
  A path is the list of its components; an absolute path starts with its anchor (the
  empty string for the POSIX root, a drive such as \<^verbatim>\<open>C:\<close> on Windows). Components are
  taken literally: \<^verbatim>\<open>..\<close> and symbolic links are not resolved. \<^verbatim>\<open>Path(__file__)\<close> is
  absolute (Python 3.9 and later), so every path of the builder is.
\<close>

type_synonym path = "string list"

text \<open>\<^verbatim>\<open>p / s\<close> of \<^verbatim>\<open>pathlib\<close> for a single component: the empty string and \<^verbatim>\<open>.\<close> add nothing.\<close>

definition pjoin :: "path \<Rightarrow> string \<Rightarrow> path" where
  "pjoin p s = (if s = [] \<or> s = ''.'' then p else p @ [s])"

text \<open>
  A file-system entry is a directory or a regular file. A file carries whether
  \<^verbatim>\<open>os.access(f, os.X_OK)\<close> holds for the running process on POSIX (an execute bit that
  applies to it) and its contents.
\<close>

datatype node = Dir | File bool string

type_synonym fs = "(path \<times> node) list"

definition norm_path :: "bool \<Rightarrow> path \<Rightarrow> path" where
  "norm_path ci p = map (norm_name ci) p"

definition same_path :: "bool \<Rightarrow> path \<Rightarrow> path \<Rightarrow> bool" where
  "same_path ci p q = (norm_path ci p = norm_path ci q)"

definition lookup :: "bool \<Rightarrow> fs \<Rightarrow> path \<Rightarrow> node option" where
  "lookup ci t p = map_option snd (find (\<lambda>(q, n). same_path ci q p) t)"

definition path_exists :: "bool \<Rightarrow> fs \<Rightarrow> path \<Rightarrow> bool" where
  "path_exists ci t p = (lookup ci t p \<noteq> None)"

definition is_dir :: "bool \<Rightarrow> fs \<Rightarrow> path \<Rightarrow> bool" where
  "is_dir ci t p = (lookup ci t p = Some Dir)"

definition is_file :: "bool \<Rightarrow> fs \<Rightarrow> path \<Rightarrow> bool" where
  "is_file ci t p = (case lookup ci t p of Some (File x c) \<Rightarrow> True | _ \<Rightarrow> False)"

text \<open>\<open>under ci d q\<close>: \<open>q\<close> is \<open>d\<close> or lies below it.\<close>

definition under :: "bool \<Rightarrow> path \<Rightarrow> path \<Rightarrow> bool" where
  "under ci d q = (length d \<le> length q \<and> same_path ci (take (length d) q) d)"

text \<open>
  \<^verbatim>\<open>d.glob(pat)\<close> for a pattern without a separator: the entries directly in \<open>d\<close> whose
  name matches; nothing when \<open>d\<close> is not a directory (\<^verbatim>\<open>pathlib\<close> tests \<^verbatim>\<open>is_dir\<close>
  first). \<open>gci\<close> is the case rule of the pattern match, which \<^verbatim>\<open>pathlib\<close> takes from
  the platform and not from the file system.
\<close>

definition glob :: "bool \<Rightarrow> bool \<Rightarrow> fs \<Rightarrow> path \<Rightarrow> string \<Rightarrow> path list" where
  "glob ci gci t d pat =
     (if is_dir ci t d
      then filter (\<lambda>q. length q = Suc (length d) \<and> under ci d q \<and> fnmatch gci pat (last q))
             (map fst t)
      else [])"

text \<open>\<^verbatim>\<open>d.rglob(pat)\<close>: the same at any depth below \<open>d\<close>.\<close>

definition rglob :: "bool \<Rightarrow> bool \<Rightarrow> fs \<Rightarrow> path \<Rightarrow> string \<Rightarrow> path list" where
  "rglob ci gci t d pat =
     (if is_dir ci t d
      then filter (\<lambda>q. length d < length q \<and> under ci d q \<and> fnmatch gci pat (last q))
             (map fst t)
      else [])"

text \<open>
  \<^verbatim>\<open>shutil.rmtree(d)\<close> on the tree: \<open>d\<close> and everything below it go.
\<close>

definition remove_tree :: "bool \<Rightarrow> fs \<Rightarrow> path \<Rightarrow> fs" where
  "remove_tree ci t d = filter (\<lambda>(q, n). \<not> under ci d q) t"

text \<open>Writing an entry: the entry of that name is replaced where it stands, or added.\<close>

fun put :: "bool \<Rightarrow> path \<Rightarrow> node \<Rightarrow> fs \<Rightarrow> fs" where
  "put ci p n [] = [(p, n)]"
| "put ci p n ((q, m) # t) =
     (if same_path ci q p then (q, n) # t else (q, m) # put ci p n t)"

section \<open>Exceptions, events and the world\<close>

text \<open>
  The exceptions the program can meet. \<^verbatim>\<open>CalledProcessError\<close> is the only
  \<^verbatim>\<open>SubprocessError\<close> among them; all of them are subclasses of \<^verbatim>\<open>Exception\<close>.
  \<^verbatim>\<open>Exception msg\<close> is the one of \<^verbatim>\<open>build_project\<close>.
\<close>

datatype exn =
    CalledProcessError int "string list"
  | FileNotFoundError
  | FileExistsError path
  | NotADirectoryError path
  | IsADirectoryError path
  | SameFileError path
  | TypeError
  | Exception string

datatype 'a result = Ok 'a | Raise exn

text \<open>
  What \<^verbatim>\<open>print\<close> writes, one constructor per \<^verbatim>\<open>print\<close> call of the source (the text
  itself is not part of the model; a constructor's argument is the value the source
  formats into the line).
\<close>

datatype msg =
    Starting_build string
  | Checking_dependencies
  | Git_found | Git_missing_windows | Git_missing_other
  | Make_found | Make_missing_windows | Make_missing_other
  | CMake_found | CMake_missing_windows | CMake_missing_other
  | MSBuild_missing | MSBuild_found string
  | Missing_required_tools
  | Detecting | CMake_detected | Autotools_detected | Make_detected | None_detected
  | Cleaning | Cleaned
  | Cloning string | Cloned
  | Building_with_cmake | Running_cmake_configuration | Building_project
  | Installing_to_output
  | Building_with_autotools | Running_autogen | Running_configure | Running_make
  | Running_make_install
  | Building_with_make | Make_install_failed
  | Built_and_installed path
  | Completed | Output_found_in path
  | Error_during exn
  | Tips_header | Tip_url | Tip_build_system | Tip_cmake | Tip_autotools | Tip_make
  | Tip_permissions | Tip_dependencies | Tip_build_tools
  | Usage | Usage_example

text \<open>
  The effects of a run, in the order they happen. \<open>Spawn argv d\<close> is a child process
  started in directory \<open>d\<close>.
\<close>

datatype event =
    Print msg
  | Spawn "string list" path
  | Rmtree path
  | Sleep nat
  | Mkdir path
  | Chdir path
  | Copy2 path path

record world =
  files :: fs
  cwd :: path
  trace :: "event list"

text \<open>How a child process ends: with a return code and its standard output, or not at
  all because the program could not be started.\<close>

datatype proc_result = Returned int string | NoSuchProgram

text \<open>
  The host: the platform, the case rule of its file system, the process environment,
  the directory of \<^verbatim>\<open>builder.py\<close> and what a child process does (its result and the
  file system it leaves, from its arguments, its directory and the file system it
  finds). A child never changes the directory of the builder's own process.
\<close>

record host =
  is_windows :: bool
  fs_ci :: bool
  environ :: "string \<Rightarrow> string option"
  script_dir :: path
  proc :: "string list \<Rightarrow> path \<Rightarrow> fs \<Rightarrow> proc_result \<times> fs"

definition emit :: "event \<Rightarrow> world \<Rightarrow> world" where
  "emit e w = w\<lparr>trace := trace w @ [e]\<rparr>"

definition print :: "msg \<Rightarrow> world \<Rightarrow> world" where
  "print m w = emit (Print m) w"

text \<open>Sequencing: an exception ends the sequence, with the world as it was left.\<close>

definition and_then ::
  "unit result \<times> world \<Rightarrow> (world \<Rightarrow> 'a result \<times> world) \<Rightarrow> 'a result \<times> world" where
  "and_then r f = (case r of (Ok u, w) \<Rightarrow> f w | (Raise e, w) \<Rightarrow> (Raise e, w))"

text \<open>The separator of \<^verbatim>\<open>str(path)\<close>.\<close>

definition backslash :: string where
  "backslash = [CHR 0x5C]"

definition sep :: "host \<Rightarrow> string" where
  "sep h = (if is_windows h then backslash else ''/'')"

fun join_with :: "string \<Rightarrow> string list \<Rightarrow> string" where
  "join_with s [] = []"
| "join_with s [x] = x"
| "join_with s (x # y # ys) = x @ s @ join_with s (y # ys)"

definition path_str :: "host \<Rightarrow> path \<Rightarrow> string" where
  "path_str h p = join_with (sep h) p"

text \<open>
  \<^verbatim>\<open>subprocess.run(argv, cwd=d)\<close>, without \<^verbatim>\<open>check\<close>: the child runs in \<open>d\<close>, or in
  the current directory when no \<^verbatim>\<open>cwd\<close> is given.
\<close>

definition subprocess_run ::
  "host \<Rightarrow> string list \<Rightarrow> path option \<Rightarrow> world \<Rightarrow> proc_result \<times> world" where
  "subprocess_run h argv d w =
     (let dir = (case d of None \<Rightarrow> cwd w | Some d' \<Rightarrow> d');
          r = proc h argv dir (files w)
      in (fst r, emit (Spawn argv dir) (w\<lparr>files := snd r\<rparr>)))"

text \<open>\<^verbatim>\<open>subprocess.run(argv, cwd=d, check=True)\<close>.\<close>

definition run_checked ::
  "host \<Rightarrow> string list \<Rightarrow> path option \<Rightarrow> world \<Rightarrow> unit result \<times> world" where
  "run_checked h argv d w =
     (case subprocess_run h argv d w of
        (Returned rc out, w') \<Rightarrow>
          if rc = 0 then (Ok (), w') else (Raise (CalledProcessError rc argv), w')
      | (NoSuchProgram, w') \<Rightarrow> (Raise FileNotFoundError, w'))"

text \<open>\<^verbatim>\<open>os.chdir(d)\<close>.\<close>

definition os_chdir :: "host \<Rightarrow> path \<Rightarrow> world \<Rightarrow> unit result \<times> world" where
  "os_chdir h d w =
     (case lookup (fs_ci h) (files w) d of
        Some Dir \<Rightarrow> (Ok (), emit (Chdir d) (w\<lparr>cwd := d\<rparr>))
      | Some (File x c) \<Rightarrow> (Raise (NotADirectoryError d), w)
      | None \<Rightarrow> (Raise FileNotFoundError, w))"

text \<open>\<^verbatim>\<open>shutil.rmtree(str(d))\<close>.\<close>

definition rmtree :: "host \<Rightarrow> path \<Rightarrow> world \<Rightarrow> unit result \<times> world" where
  "rmtree h d w =
     (case lookup (fs_ci h) (files w) d of
        Some Dir \<Rightarrow> (Ok (), emit (Rmtree d) (w\<lparr>files := remove_tree (fs_ci h) (files w) d\<rparr>))
      | Some (File x c) \<Rightarrow> (Raise (NotADirectoryError d), w)
      | None \<Rightarrow> (Raise FileNotFoundError, w))"

text \<open>
  \<^verbatim>\<open>d.mkdir(parents=True, exist_ok=True)\<close>: every missing directory on the way to \<open>d\<close>
  is made; a regular file in the way is an error (\<^verbatim>\<open>FileExistsError\<close> at \<open>d\<close> itself,
  \<^verbatim>\<open>NotADirectoryError\<close> above it).
\<close>

fun make_dirs :: "bool \<Rightarrow> path \<Rightarrow> nat \<Rightarrow> nat \<Rightarrow> fs \<Rightarrow> exn + fs" where
  "make_dirs ci d k 0 t = Inr t"
| "make_dirs ci d k (Suc n) t =
     (case lookup ci t (take k d) of
        None \<Rightarrow> make_dirs ci d (Suc k) n (t @ [(take k d, Dir)])
      | Some Dir \<Rightarrow> make_dirs ci d (Suc k) n t
      | Some (File x c) \<Rightarrow>
          Inl (if k = length d then FileExistsError d else NotADirectoryError (take k d)))"

definition mkdir :: "host \<Rightarrow> path \<Rightarrow> world \<Rightarrow> unit result \<times> world" where
  "mkdir h d w =
     (case make_dirs (fs_ci h) d 1 (length d) (files w) of
        Inl e \<Rightarrow> (Raise e, w)
      | Inr t \<Rightarrow> (Ok (), emit (Mkdir d) (w\<lparr>files := t\<rparr>)))"

text \<open>
  \<^verbatim>\<open>os.access(f, os.X_OK)\<close>: on Windows every existing path passes; elsewhere a
  regular file passes when its execute bit applies.
\<close>

definition access_x :: "host \<Rightarrow> fs \<Rightarrow> path \<Rightarrow> bool" where
  "access_x h t p =
     (case lookup (fs_ci h) t p of
        None \<Rightarrow> False
      | Some Dir \<Rightarrow> True
      | Some (File x c) \<Rightarrow> is_windows h \<or> x)"

text \<open>
  \<^verbatim>\<open>shutil.copy2(src, dst)\<close>: into \<open>dst\<close> under the name of \<open>src\<close> when \<open>dst\<close> is a
  directory, onto \<open>dst\<close> otherwise; contents and mode are copied.
\<close>

definition copy2 :: "host \<Rightarrow> path \<Rightarrow> path \<Rightarrow> world \<Rightarrow> unit result \<times> world" where
  "copy2 h src dst w =
     (let ci = fs_ci h;
          target = (if is_dir ci (files w) dst then dst @ [last src] else dst)
      in case lookup ci (files w) src of
           None \<Rightarrow> (Raise FileNotFoundError, w)
         | Some Dir \<Rightarrow> (Raise (IsADirectoryError src), w)
         | Some (File x c) \<Rightarrow>
             if same_path ci src target then (Raise (SameFileError src), w)
             else if is_dir ci (files w) target then (Raise (IsADirectoryError target), w)
             else (Ok (), emit (Copy2 src target)
                            (w\<lparr>files := put ci target (File x c) (files w)\<rparr>)))"

section \<open>The builder\<close>

subsection \<open>\<^verbatim>\<open>WindowsTools\<close>\<close>

text \<open>
  \<^verbatim>\<open>os.path.join\<close> and \<^verbatim>\<open>os.path.exists\<close> on Windows path strings, for the relative
  names the program appends: a separator is added unless the left part is empty or ends
  with one, and a string names the entry its components name.
\<close>

definition nt_join :: "string \<Rightarrow> string \<Rightarrow> string" where
  "nt_join a b =
     (if a \<noteq> [] \<and> last a \<noteq> CHR 0x5C \<and> last a \<noteq> CHR ''/'' then a @ backslash @ b
      else a @ b)"

definition nt_split :: "string \<Rightarrow> path" where
  "nt_split s =
     filter (\<lambda>c. c \<noteq> [])
       (concat (map (split_on (CHR 0x5C)) (split_on (CHR ''/'') s)))"

definition os_path_exists :: "host \<Rightarrow> world \<Rightarrow> string \<Rightarrow> bool" where
  "os_path_exists h w s = path_exists (fs_ci h) (files w) (nt_split s)"

text \<open>\<^verbatim>\<open>WindowsTools.get_vs_install_path\<close>.\<close>

definition get_vs_install_path :: "host \<Rightarrow> world \<Rightarrow> string option \<times> world" where
  "get_vs_install_path h w =
     (let program_files =
            (case environ h ''ProgramFiles(x86)'' of
               Some v \<Rightarrow> v
             | None \<Rightarrow> ''C:'' @ backslash @ ''Program Files (x86)'');
          vswhere =
            nt_join (nt_join (nt_join program_files ''Microsoft Visual Studio'')
              ''Installer'') ''vswhere.exe''
      in if \<not> os_path_exists h w vswhere then (None, w)
         else (case subprocess_run h
                      [vswhere, ''-latest'', ''-products'', ''*'', ''-requires'',
                       ''Microsoft.VisualStudio.Component.VC.Tools.x86.x64'',
                       ''-property'', ''installationPath''] None w of
                 (Returned rc out, w') \<Rightarrow> (Some (strip out), w')
               | (NoSuchProgram, w') \<Rightarrow> (None, w')))"

definition common_paths :: "string list" where
  "common_paths =
     map (join_with backslash)
       [[''C:'', ''Program Files'', ''Microsoft Visual Studio'', ''2022'', ''Community'',
         ''MSBuild'', ''Current'', ''Bin'', ''MSBuild.exe''],
        [''C:'', ''Program Files'', ''Microsoft Visual Studio'', ''2022'', ''BuildTools'',
         ''MSBuild'', ''Current'', ''Bin'', ''MSBuild.exe''],
        [''C:'', ''Program Files (x86)'', ''Microsoft Visual Studio'', ''2022'',
         ''BuildTools'', ''MSBuild'', ''Current'', ''Bin'', ''MSBuild.exe''],
        [''C:'', ''Program Files (x86)'', ''Microsoft Visual Studio'', ''2019'',
         ''BuildTools'', ''MSBuild'', ''Current'', ''Bin'', ''MSBuild.exe''],
        [''C:'', ''Program Files (x86)'', ''Microsoft Visual Studio'', ''2019'',
         ''Community'', ''MSBuild'', ''Current'', ''Bin'', ''MSBuild.exe'']]"

text \<open>\<^verbatim>\<open>WindowsTools.find_msbuild\<close>.\<close>

definition find_msbuild :: "host \<Rightarrow> world \<Rightarrow> string option \<times> world" where
  "find_msbuild h w =
     (case get_vs_install_path h w of (vs_path, w') \<Rightarrow>
        (let msbuild_path =
               nt_join (nt_join (nt_join (nt_join (case vs_path of Some v \<Rightarrow> v | None \<Rightarrow> [])
                 ''MSBuild'') ''Current'') ''Bin'') ''MSBuild.exe''
         in if vs_path \<noteq> None \<and> vs_path \<noteq> Some [] \<and> os_path_exists h w' msbuild_path
            then (Some msbuild_path, w')
            else (find (os_path_exists h w') common_paths, w')))"

subsection \<open>\<^verbatim>\<open>BuildSystem\<close> and \<^verbatim>\<open>CProjectBuilder\<close>\<close>

text \<open>The four constants of \<^verbatim>\<open>class BuildSystem\<close> (distinct strings in the source).\<close>

datatype BuildSystem = CMAKE | MAKE | AUTOTOOLS | UNKNOWN

record builder =
  github_url :: string
  branch :: "string option"
  project_root :: path
  project_name :: string
  source_dir :: path
  build_dir :: path
  output_dir :: path
  msbuild_path :: "string option"
  build_system :: "BuildSystem option"

text \<open>\<^verbatim>\<open>github_url.split('/')[-1].replace('.git', '')\<close>\<close>

definition derive_project_name :: "string \<Rightarrow> string" where
  "derive_project_name url = str_replace ''.git'' [] (last (split_on (CHR ''/'') url))"

text \<open>\<^verbatim>\<open>CProjectBuilder.__init__\<close>\<close>

definition init :: "host \<Rightarrow> string \<Rightarrow> string option \<Rightarrow> builder" where
  "init h url br =
     (let root = script_dir h; name = derive_project_name url
      in \<lparr>github_url = url, branch = br, project_root = root, project_name = name,
          source_dir = pjoin (pjoin root ''source'') name,
          build_dir = pjoin (pjoin root ''build'') name,
          output_dir = pjoin (pjoin root ''output'') name,
          msbuild_path = None, build_system = None\<rparr>)"

text \<open>\<^verbatim>\<open>CProjectBuilder.detect_build_system\<close>; \<open>marker h b w name\<close> is
  \<^verbatim>\<open>(self.source_dir / name).exists()\<close>.\<close>

definition marker :: "host \<Rightarrow> builder \<Rightarrow> world \<Rightarrow> string \<Rightarrow> bool" where
  "marker h b w name = path_exists (fs_ci h) (files w) (pjoin (source_dir b) name)"

definition detect_build_system :: "host \<Rightarrow> builder \<Rightarrow> world \<Rightarrow> BuildSystem \<times> world" where
  "detect_build_system h b w =
     (let w1 = print Detecting w
      in if marker h b w1 ''CMakeLists.txt'' then (CMAKE, print CMake_detected w1)
         else if marker h b w1 ''configure.ac'' \<or> marker h b w1 ''configure''
           then (AUTOTOOLS, print Autotools_detected w1)
         else if marker h b w1 ''Makefile''
                 \<or> glob (fs_ci h) (is_windows h) (files w1) (source_dir b) ''makefile*'' \<noteq> []
           then (MAKE, print Make_detected w1)
         else (UNKNOWN, print None_detected w1))"

text \<open>
  One probe of \<^verbatim>\<open>check_dependencies\<close>: \<^verbatim>\<open>subprocess.run([tool, '--version'],
  capture_output=True, check=True)\<close> under \<^verbatim>\<open>except (SubprocessError, FileNotFoundError)\<close>,
  which catches both exceptions \<open>run_checked\<close> raises.
\<close>

definition probe :: "host \<Rightarrow> string \<Rightarrow> world \<Rightarrow> bool \<times> world" where
  "probe h tool w =
     (case run_checked h [tool, ''--version''] None w of
        (Ok u, w') \<Rightarrow> (True, w')
      | (Raise e, w') \<Rightarrow> (False, w'))"

text \<open>\<^verbatim>\<open>CProjectBuilder.check_dependencies\<close>: the missing tools, the builder (its
  \<^verbatim>\<open>msbuild_path\<close> is set on Windows) and the world.\<close>

definition check_dependencies ::
  "host \<Rightarrow> builder \<Rightarrow> world \<Rightarrow> string list \<times> builder \<times> world" where
  "check_dependencies h b w =
     (let w0 = print Checking_dependencies w;
          (git_ok, w1) = probe h ''git'' w0;
          w2 = print (if git_ok then Git_found
                      else if is_windows h then Git_missing_windows else Git_missing_other) w1;
          m1 = (if git_ok then [] else [''git'']);
          (make_ok, w3) = probe h ''make'' w2;
          w4 = print (if make_ok then Make_found
                      else if is_windows h then Make_missing_windows else Make_missing_other) w3;
          m2 = (if make_ok then m1 else m1 @ [''make'']);
          (cmake_ok, w5) = probe h ''cmake'' w4;
          w6 = print (if cmake_ok then CMake_found
                      else if is_windows h then CMake_missing_windows
                      else CMake_missing_other) w5;
          m3 = (if cmake_ok then m2 else m2 @ [''cmake''])
      in if is_windows h
         then (case find_msbuild h w6 of
                 (None, w7) \<Rightarrow>
                   (m3 @ [''msbuild''], b\<lparr>msbuild_path := None\<rparr>, print MSBuild_missing w7)
               | (Some mp, w7) \<Rightarrow>
                   (m3, b\<lparr>msbuild_path := Some mp\<rparr>, print (MSBuild_found mp) w7))
         else (m3, b, w6))"

text \<open>\<^verbatim>\<open>CProjectBuilder.clean_directories\<close>: one round of the loop, then the loop.\<close>

definition clean_directory :: "host \<Rightarrow> path \<Rightarrow> world \<Rightarrow> unit result \<times> world" where
  "clean_directory h d w =
     and_then
       (if path_exists (fs_ci h) (files w) d
        then and_then (rmtree h d w) (\<lambda>w. (Ok (), emit (Sleep 1) w))
        else (Ok (), w))
       (mkdir h d)"

definition clean_directories :: "host \<Rightarrow> builder \<Rightarrow> world \<Rightarrow> unit result \<times> world" where
  "clean_directories h b w =
     and_then (clean_directory h (build_dir b) (print Cleaning w)) (\<lambda>w.
     and_then (clean_directory h (output_dir b) w) (\<lambda>w.
     (Ok (), print Cleaned w)))"

text \<open>The \<^verbatim>\<open>git clone\<close> command line of \<^verbatim>\<open>clone_repository\<close>; \<^verbatim>\<open>if self.branch\<close> holds
  for a branch that is given and not the empty string.\<close>

definition clone_cmd :: "host \<Rightarrow> builder \<Rightarrow> string list" where
  "clone_cmd h b =
     [''git'', ''clone'']
     @ (case branch b of
          None \<Rightarrow> []
        | Some br \<Rightarrow> if br = [] then [] else [''--branch'', br])
     @ [github_url b, path_str h (source_dir b)]"

text \<open>\<^verbatim>\<open>CProjectBuilder.clone_repository\<close>\<close>

definition clone_repository :: "host \<Rightarrow> builder \<Rightarrow> world \<Rightarrow> unit result \<times> world" where
  "clone_repository h b w =
     (let w0 = print (Cloning (github_url b)) w
      in and_then
           (if path_exists (fs_ci h) (files w0) (source_dir b)
            then and_then (rmtree h (source_dir b) w0) (\<lambda>w. (Ok (), emit (Sleep 1) w))
            else (Ok (), w0)) (\<lambda>w.
         and_then (run_checked h (clone_cmd h b) None w) (\<lambda>w.
         and_then
           (run_checked h [''git'', ''submodule'', ''update'', ''--init'', ''--recursive'']
              (Some (source_dir b)) w) (\<lambda>w.
         (Ok (), print Cloned w)))))"

subsection \<open>The build drivers\<close>

text \<open>\<^verbatim>\<open>CProjectBuilder.build_cmake_project\<close>. On Windows the build command starts with
  \<^verbatim>\<open>self.msbuild_path\<close>; \<^verbatim>\<open>subprocess.run\<close> raises \<^verbatim>\<open>TypeError\<close> when that is \<^verbatim>\<open>None\<close>.\<close>

definition cmake_args :: "host \<Rightarrow> builder \<Rightarrow> string list" where
  "cmake_args h b =
     [''cmake'', ''-S'', path_str h (source_dir b), ''-B'', path_str h (build_dir b)]
     @ (if is_windows h
        then [''-A'', ''x64'', ''-DCMAKE_INSTALL_PREFIX='' @ path_str h (output_dir b)]
        else [''-DCMAKE_BUILD_TYPE=Release'',
              ''-DCMAKE_INSTALL_PREFIX='' @ path_str h (output_dir b)])"

definition build_cmake_project :: "host \<Rightarrow> builder \<Rightarrow> world \<Rightarrow> unit result \<times> world" where
  "build_cmake_project h b w =
     and_then
       (run_checked h (cmake_args h b) None
          (print Running_cmake_configuration (print Building_with_cmake w))) (\<lambda>w.
     and_then
       (if is_windows h
        then (case msbuild_path b of
                None \<Rightarrow> (Raise TypeError, print Building_project w)
              | Some mp \<Rightarrow>
                  run_checked h
                    [mp, path_str h (pjoin (build_dir b) ''ALL_BUILD.vcxproj''),
                     ''/p:Configuration=Release'', ''/p:Platform=x64'', ''/m'']
                    None (print Building_project w))
        else run_checked h
               [''cmake'', ''--build'', path_str h (build_dir b), ''--config'', ''Release'']
               None (print Building_project w)) (\<lambda>w.
     run_checked h
       [''cmake'', ''--install'', path_str h (build_dir b), ''--config'', ''Release'']
       None (print Installing_to_output w)))"

text \<open>\<^verbatim>\<open>CProjectBuilder.build_autotools_project\<close>\<close>

definition build_autotools_project ::
  "host \<Rightarrow> builder \<Rightarrow> world \<Rightarrow> unit result \<times> world" where
  "build_autotools_project h b w =
     and_then (os_chdir h (source_dir b) (print Building_with_autotools w)) (\<lambda>w.
     and_then
       (if path_exists (fs_ci h) (files w) (pjoin (source_dir b) ''autogen.sh'')
        then run_checked h [''./autogen.sh''] None (print Running_autogen w)
        else (Ok (), w)) (\<lambda>w.
     and_then
       (if path_exists (fs_ci h) (files w) (pjoin (source_dir b) ''configure'')
        then run_checked h
               [''./configure'', ''--prefix='' @ path_str h (output_dir b), ''--enable-shared'']
               None (print Running_configure w)
        else (Ok (), w)) (\<lambda>w.
     and_then (run_checked h [''make'', ''-j''] None (print Running_make w)) (\<lambda>w.
     and_then (run_checked h [''make'', ''install''] None (print Running_make_install w)) (\<lambda>w.
     os_chdir h (project_root b) w)))))"

text \<open>
  The fallback of \<^verbatim>\<open>build_make_project\<close>. The inner loop: for every path the scan
  gave, \<^verbatim>\<open>if file.is_file() and os.access(file, os.X_OK): shutil.copy2(file, output_dir)\<close>.
\<close>

fun copy_files :: "host \<Rightarrow> path \<Rightarrow> path list \<Rightarrow> world \<Rightarrow> unit result \<times> world" where
  "copy_files h out [] w = (Ok (), w)"
| "copy_files h out (f # rest) w =
     and_then
       (if is_file (fs_ci h) (files w) f \<and> access_x h (files w) f then copy2 h f out w
        else (Ok (), w))
       (copy_files h out rest)"

text \<open>The outer loop: \<^verbatim>\<open>for ext in [...]: for file in self.source_dir.rglob(f'*{ext}')\<close>.\<close>

fun copy_by_ext :: "host \<Rightarrow> builder \<Rightarrow> string list \<Rightarrow> world \<Rightarrow> unit result \<times> world" where
  "copy_by_ext h b [] w = (Ok (), w)"
| "copy_by_ext h b (ext # exts) w =
     and_then
       (copy_files h (output_dir b)
          (rglob (fs_ci h) (is_windows h) (files w) (source_dir b) (''*'' @ ext)) w)
       (copy_by_ext h b exts)"

definition extensions :: "string list" where
  "extensions = [[], ''.exe'', ''.dll'', ''.so'', ''.dylib'']"

definition copy_artifacts :: "host \<Rightarrow> builder \<Rightarrow> world \<Rightarrow> unit result \<times> world" where
  "copy_artifacts h b w =
     and_then (mkdir h (output_dir b) (print Make_install_failed w))
       (copy_by_ext h b extensions)"

text \<open>The \<^verbatim>\<open>try\<close> statement of \<^verbatim>\<open>build_make_project\<close>: \<^verbatim>\<open>except
  subprocess.CalledProcessError\<close> catches a non-zero return code of \<^verbatim>\<open>make install\<close> and
  nothing else.\<close>

definition install_or_copy :: "host \<Rightarrow> builder \<Rightarrow> world \<Rightarrow> unit result \<times> world" where
  "install_or_copy h b w =
     (case run_checked h [''make'', ''install''] None (print Running_make_install w) of
        (Raise (CalledProcessError rc argv), w') \<Rightarrow> copy_artifacts h b w'
      | r \<Rightarrow> r)"

text \<open>\<^verbatim>\<open>CProjectBuilder.build_make_project\<close>\<close>

definition build_make_project :: "host \<Rightarrow> builder \<Rightarrow> world \<Rightarrow> unit result \<times> world" where
  "build_make_project h b w =
     and_then (os_chdir h (source_dir b) (print Building_with_make w)) (\<lambda>w.
     and_then
       (if path_exists (fs_ci h) (files w) (pjoin (source_dir b) ''configure'')
        then run_checked h [''./configure'', ''--prefix='' @ path_str h (output_dir b)]
               None (print Running_configure w)
        else (Ok (), w)) (\<lambda>w.
     and_then (run_checked h [''make'', ''-j''] None (print Running_make w)) (\<lambda>w.
     and_then (install_or_copy h b w) (\<lambda>w.
     os_chdir h (project_root b) w))))"

subsection \<open>The orchestrator\<close>

text \<open>\<^verbatim>\<open>CProjectBuilder.build_project\<close>\<close>

definition build_project ::
  "host \<Rightarrow> builder \<Rightarrow> world \<Rightarrow> unit result \<times> builder \<times> world" where
  "build_project h b w =
     (case detect_build_system h b w of (bs, w1) \<Rightarrow>
        (let b1 = b\<lparr>build_system := Some bs\<rparr>;
             r = (case bs of
                    CMAKE \<Rightarrow> build_cmake_project h b1 w1
                  | AUTOTOOLS \<Rightarrow> build_autotools_project h b1 w1
                  | MAKE \<Rightarrow> build_make_project h b1 w1
                  | UNKNOWN \<Rightarrow> (Raise (Exception ''No supported build system detected''), w1))
         in case and_then r (\<lambda>w. (Ok (), print (Built_and_installed (output_dir b1)) w)) of
              (res, w2) \<Rightarrow> (res, b1, w2)))"

text \<open>How \<^verbatim>\<open>run\<close> ends: it returns, or \<^verbatim>\<open>sys.exit(n)\<close> ends the process. A process
  whose script runs to its end exits with status 0.\<close>

datatype ending = Returns | SysExit nat

fun exit_status :: "ending \<Rightarrow> nat" where
  "exit_status Returns = 0"
| "exit_status (SysExit n) = n"

text \<open>The body of \<^verbatim>\<open>try\<close> in \<^verbatim>\<open>run\<close>.\<close>

definition run_stages ::
  "host \<Rightarrow> builder \<Rightarrow> world \<Rightarrow> unit result \<times> builder \<times> world" where
  "run_stages h b w =
     (case clean_directories h b w of
        (Raise e, w1) \<Rightarrow> (Raise e, b, w1)
      | (Ok u, w1) \<Rightarrow>
          (case clone_repository h b w1 of
             (Raise e, w2) \<Rightarrow> (Raise e, b, w2)
           | (Ok u, w2) \<Rightarrow>
               (case build_project h b w2 of
                  (Raise e, b3, w3) \<Rightarrow> (Raise e, b3, w3)
                | (Ok u, b3, w3) \<Rightarrow>
                    (Ok (), b3, print (Output_found_in (output_dir b3)) (print Completed w3)))))"

text \<open>The handler: \<^verbatim>\<open>except Exception as e\<close>.\<close>

definition troubleshooting :: "host \<Rightarrow> exn \<Rightarrow> msg list" where
  "troubleshooting h e =
     [Error_during e, Tips_header, Tip_url, Tip_build_system, Tip_cmake, Tip_autotools,
      Tip_make, Tip_permissions, Tip_dependencies]
     @ (if is_windows h then [Tip_build_tools] else [])"

definition print_all :: "msg list \<Rightarrow> world \<Rightarrow> world" where
  "print_all ms w = fold print ms w"

text \<open>\<^verbatim>\<open>CProjectBuilder.run\<close>\<close>

definition run :: "host \<Rightarrow> builder \<Rightarrow> world \<Rightarrow> ending \<times> builder \<times> world" where
  "run h b w =
     (case check_dependencies h b (print (Starting_build (project_name b)) w) of
        (missing, b1, w1) \<Rightarrow>
          if missing \<noteq> [] then (SysExit 1, b1, print Missing_required_tools w1)
          else (case run_stages h b1 w1 of
                  (Ok u, b2, w2) \<Rightarrow> (Returns, b2, w2)
                | (Raise e, b2, w2) \<Rightarrow> (SysExit 1, b2, print_all (troubleshooting h e) w2)))"

text \<open>The script: \<^verbatim>\<open>argv\<close> is \<^verbatim>\<open>sys.argv\<close>, the result the exit status of the process.\<close>

definition main :: "host \<Rightarrow> string list \<Rightarrow> world \<Rightarrow> nat \<times> world" where
  "main h argv w =
     (if length argv < 2 then (1, print Usage_example (print Usage w))
      else (case run h (init h (argv ! 1) (if 2 < length argv then Some (argv ! 2) else None)) w of
              (e, b, w') \<Rightarrow> (exit_status e, w')))"

section \<open>Well-formed trees and example hosts\<close>


text \<open>What the events of \<^verbatim>\<open>check_dependencies\<close> and of the exit that follows it are:
  messages about the tools, and the queries that look for them.\<close>

definition vswhere_query :: "string list" where
  "vswhere_query =
     [''-latest'', ''-products'', ''*'', ''-requires'',
      ''Microsoft.VisualStudio.Component.VC.Tools.x86.x64'',
      ''-property'', ''installationPath'']"

definition tool_msg :: "msg \<Rightarrow> bool" where
  "tool_msg m =
     (case m of
        Starting_build name \<Rightarrow> True
      | Checking_dependencies \<Rightarrow> True
      | Git_found \<Rightarrow> True | Git_missing_windows \<Rightarrow> True | Git_missing_other \<Rightarrow> True
      | Make_found \<Rightarrow> True | Make_missing_windows \<Rightarrow> True | Make_missing_other \<Rightarrow> True
      | CMake_found \<Rightarrow> True | CMake_missing_windows \<Rightarrow> True | CMake_missing_other \<Rightarrow> True
      | MSBuild_missing \<Rightarrow> True | MSBuild_found p \<Rightarrow> True
      | Missing_required_tools \<Rightarrow> True
      | _ \<Rightarrow> False)"

fun tool_query :: "event \<Rightarrow> bool" where
  "tool_query (Print m) = tool_msg m"
| "tool_query (Spawn argv d) =
     (argv \<in> set [[''git'', ''--version''], [''make'', ''--version''], [''cmake'', ''--version'']]
      \<or> tl argv = vswhere_query)"
| "tool_query e = False"

text \<open>The first message of each stage and of each driver.\<close>

definition stage_entry :: "msg \<Rightarrow> bool" where
  "stage_entry m =
     (case m of
        Cleaning \<Rightarrow> True
      | Cloning u \<Rightarrow> True
      | Detecting \<Rightarrow> True
      | Building_with_cmake \<Rightarrow> True
      | Building_with_autotools \<Rightarrow> True
      | Building_with_make \<Rightarrow> True
      | _ \<Rightarrow> False)"

text \<open>The entries of a checkout of the project \<^verbatim>\<open>hello\<close> below \<^verbatim>\<open>/opt/builder\<close>, from the
  entries at the top of the repository.\<close>

definition cloned :: "(string \<times> node) list \<Rightarrow> fs" where
  "cloned repo =
     [([[], ''opt'', ''builder'', ''source''], Dir),
      ([[], ''opt'', ''builder'', ''source'', ''hello''], Dir)]
     @ map (\<lambda>(name, n). ([[], ''opt'', ''builder'', ''source'', ''hello'', name], n)) repo"

text \<open>
  A Linux host whose script lives in \<^verbatim>\<open>/opt/builder\<close>. The programs of \<open>gone\<close> cannot
  be started and the commands of \<open>bad\<close> return 2; every other command returns 0, and
  \<^verbatim>\<open>git clone\<close> writes a checkout of \<open>repo\<close>. No other command touches the files.
\<close>

definition linux :: "(string \<times> node) list \<Rightarrow> string list list \<Rightarrow> string list \<Rightarrow> host" where
  "linux repo bad gone =
     \<lparr>is_windows = False, fs_ci = False, environ = (\<lambda>v. None),
      script_dir = [[], ''opt'', ''builder''],
      proc = (\<lambda>argv d t.
        if argv \<noteq> [] \<and> hd argv \<in> set gone then (NoSuchProgram, t)
        else if argv \<in> set bad then (Returned 2 [], t)
        else if take 2 argv = [''git'', ''clone''] then (Returned 0 [], t @ cloned repo)
        else (Returned 0 [], t))\<rparr>"

text \<open>The same machine with the rules of Windows for names and patterns.\<close>

definition windows :: host where
  "windows = (linux [] [] [])\<lparr>is_windows := True, fs_ci := True\<rparr>"

definition hello_url :: string where
  "hello_url = ''https://github.com/octocat/hello.git''"

definition hello :: builder where
  "hello = init (linux [] [] []) hello_url None"

text \<open>A checkout of \<open>hello\<close> with the given entries at its top, the build and output
  directories made, the process started in \<^verbatim>\<open>/home/user\<close>.\<close>

definition checkout :: "(string \<times> node) list \<Rightarrow> world" where
  "checkout entries =
     \<lparr>files =
        [([[]], Dir), ([[], ''opt''], Dir), ([[], ''opt'', ''builder''], Dir),
         ([[], ''opt'', ''builder'', ''build''], Dir),
         ([[], ''opt'', ''builder'', ''build'', ''hello''], Dir),
         ([[], ''opt'', ''builder'', ''output''], Dir),
         ([[], ''opt'', ''builder'', ''output'', ''hello''], Dir)]
        @ cloned entries,
      cwd = [[], ''home'', ''user''],
      trace = []\<rparr>"

text \<open>The machine before any checkout.\<close>

definition fresh :: world where
  "fresh =
     \<lparr>files = [([[]], Dir), ([[], ''opt''], Dir), ([[], ''opt'', ''builder''], Dir)],
      cwd = [[], ''home'', ''user''],
      trace = []\<rparr>"

section \<open>What the fallback of the Make driver copies\<close>

text \<open>
  An artifact of a tree is an entry below the source directory that passes the test of
  the copy loop: a regular file for which \<^verbatim>\<open>os.access(file, os.X_OK)\<close> holds.
\<close>

definition artifact :: "host \<Rightarrow> builder \<Rightarrow> fs \<Rightarrow> path \<Rightarrow> bool" where
  "artifact h b t f =
     (length (source_dir b) < length f \<and> under (fs_ci h) (source_dir b) f \<and>
      is_file (fs_ci h) t f \<and> access_x h t f)"

text \<open>
  \<open>copied h b t0 t q\<close>: in \<open>t\<close> the entry \<open>q\<close> holds what an artifact of \<open>t0\<close> held, and
  \<open>q\<close> is the name of that artifact directly in the output directory.
\<close>

definition copied :: "host \<Rightarrow> builder \<Rightarrow> fs \<Rightarrow> fs \<Rightarrow> path \<Rightarrow> bool" where
  "copied h b t0 t q =
     (\<exists>g. artifact h b t0 g \<and> same_path (fs_ci h) (output_dir b @ [last g]) q \<and>
          lookup (fs_ci h) t q = lookup (fs_ci h) t0 g)"

text \<open>
  What every round of the copy loop keeps: the output directory is a directory, the
  source tree is as it was, and every other entry is as it was or is a copy.
\<close>

definition copy_inv :: "host \<Rightarrow> builder \<Rightarrow> fs \<Rightarrow> fs \<Rightarrow> bool" where
  "copy_inv h b t0 t =
     (is_dir (fs_ci h) t (output_dir b) \<and>
      (\<forall>q. under (fs_ci h) (source_dir b) q \<longrightarrow> lookup (fs_ci h) t q = lookup (fs_ci h) t0 q) \<and>
      (\<forall>q. lookup (fs_ci h) t q = lookup (fs_ci h) t0 q \<or> copied h b t0 t q))"

section \<open>Basic facts\<close>

lemma files_emit [simp]: "files (emit e w) = files w"
  by (simp add: emit_def)

lemma cwd_emit [simp]: "cwd (emit e w) = cwd w"
  by (simp add: emit_def)

lemma trace_emit [simp]: "trace (emit e w) = trace w @ [e]"
  by (simp add: emit_def)

lemma files_print [simp]: "files (print m w) = files w"
  by (simp add: print_def)

lemma cwd_print [simp]: "cwd (print m w) = cwd w"
  by (simp add: print_def)

lemma trace_print [simp]: "trace (print m w) = trace w @ [Print m]"
  by (simp add: print_def)

lemma and_then_Ok [simp]: "and_then (Ok u, w) f = f w"
  by (simp add: and_then_def)

lemma and_then_Raise [simp]: "and_then (Raise e, w) f = (Raise e, w)"
  by (simp add: and_then_def)

lemma files_print_all [simp]: "files (print_all ms w) = files w"
  unfolding print_all_def by (induction ms arbitrary: w) simp_all

lemma cwd_print_all [simp]: "cwd (print_all ms w) = cwd w"
  unfolding print_all_def by (induction ms arbitrary: w) simp_all

lemma trace_print_all [simp]: "trace (print_all ms w) = trace w @ map Print ms"
  unfolding print_all_def by (induction ms arbitrary: w) simp_all


lemma lookup_Some_mem:
  assumes "lookup ci t p = Some n"
  shows "\<exists>q. (q, n) \<in> set t \<and> same_path ci q p"
proof -
  from assms obtain e where e: "find (\<lambda>(q, n). same_path ci q p) t = Some e" and n: "snd e = n"
    by (auto simp: lookup_def)
  from e have "e \<in> set t" and "(\<lambda>(q, n). same_path ci q p) e"
    by (auto simp: find_Some_iff in_set_conv_nth)
  with n show ?thesis by (cases e) auto
qed



lemma same_path_length: "same_path ci p q \<Longrightarrow> length p = length q"
  by (auto simp: same_path_def norm_path_def dest: map_eq_imp_length_eq)


lemma marker_print [simp]: "marker h b (print m w) name = marker h b w name"
  by (simp add: marker_def)

lemma fst_detect:
  "fst (detect_build_system h b w) =
     (if marker h b w ''CMakeLists.txt'' then CMAKE
      else if marker h b w ''configure.ac'' \<or> marker h b w ''configure'' then AUTOTOOLS
      else if marker h b w ''Makefile''
              \<or> glob (fs_ci h) (is_windows h) (files w) (source_dir b) ''makefile*'' \<noteq> []
        then MAKE
      else UNKNOWN)"
  by (simp add: detect_build_system_def Let_def)

lemma detect_frame:
  "files (snd (detect_build_system h b w)) = files w \<and>
   cwd (snd (detect_build_system h b w)) = cwd w \<and>
   (\<exists>m. trace (snd (detect_build_system h b w)) = trace w @ [Print Detecting, Print m])"
  by (simp add: detect_build_system_def Let_def)

lemma detect_UNKNOWN:
  "fst (detect_build_system h b w) = UNKNOWN \<Longrightarrow>
   detect_build_system h b w = (UNKNOWN, print None_detected (print Detecting w))"
  by (simp add: detect_build_system_def Let_def split: if_splits)


section \<open>Processes\<close>

lemma subprocess_run_frame:
  "subprocess_run h argv d w = (r, w') \<Longrightarrow>
     cwd w' = cwd w \<and>
     trace w' = trace w @ [Spawn argv (case d of None \<Rightarrow> cwd w | Some x \<Rightarrow> x)]"
  by (auto simp: subprocess_run_def Let_def)

lemma run_checked_frame:
  "run_checked h argv d w = (r, w') \<Longrightarrow>
     cwd w' = cwd w \<and>
     trace w' = trace w @ [Spawn argv (case d of None \<Rightarrow> cwd w | Some x \<Rightarrow> x)]"
  unfolding run_checked_def
  by (cases "subprocess_run h argv d w")
     (auto split: proc_result.splits if_splits dest: subprocess_run_frame)

lemma probe_frame:
  "probe h tool w = (ok, w') \<Longrightarrow>
     cwd w' = cwd w \<and> trace w' = trace w @ [Spawn [tool, ''--version''] (cwd w)]"
  unfolding probe_def
  by (cases "run_checked h [tool, ''--version''] None w")
     (auto split: result.splits dest: run_checked_frame)

lemma get_vs_install_path_frame:
  assumes "get_vs_install_path h w = (r, w')"
  shows "cwd w' = cwd w \<and> (\<exists>es. trace w' = trace w @ es \<and> list_all tool_query es)"
proof -
  define v where "v = nt_join (nt_join (nt_join
      (case environ h ''ProgramFiles(x86)'' of
         Some v \<Rightarrow> v | None \<Rightarrow> ''C:'' @ backslash @ ''Program Files (x86)'')
      ''Microsoft Visual Studio'') ''Installer'') ''vswhere.exe''"
  show ?thesis
  proof (cases "os_path_exists h w v")
    case False
    with assms have "w' = w"
      by (simp add: get_vs_install_path_def v_def Let_def)
    then show ?thesis by simp
  next
    case True
    obtain pr w1 where s: "subprocess_run h (v # vswhere_query) None w = (pr, w1)"
      by (cases "subprocess_run h (v # vswhere_query) None w")
    with assms True have "w' = w1"
      by (simp add: get_vs_install_path_def v_def [symmetric] Let_def vswhere_query_def
            split: proc_result.splits)
    with subprocess_run_frame [OF s] show ?thesis by simp
  qed
qed

lemma snd_find_msbuild: "snd (find_msbuild h w) = snd (get_vs_install_path h w)"
  by (simp add: find_msbuild_def Let_def split: prod.splits)

lemma find_msbuild_frame:
  assumes "find_msbuild h w = (r, w')"
  shows "cwd w' = cwd w \<and> (\<exists>es. trace w' = trace w @ es \<and> list_all tool_query es)"
proof -
  from assms have "w' = snd (get_vs_install_path h w)"
    using snd_find_msbuild [of h w] by simp
  then show ?thesis
    using get_vs_install_path_frame [of h w "fst (get_vs_install_path h w)" w'] by simp
qed

lemma tool_msg_not_stage: "tool_msg m \<Longrightarrow> \<not> stage_entry m"
  by (cases m) (simp_all add: tool_msg_def stage_entry_def)

lemma check_dependencies_frame:
  assumes "check_dependencies h b w = (missing, b', w')"
  shows "cwd w' = cwd w \<and> (\<exists>es. trace w' = trace w @ es \<and> list_all tool_query es)"
proof -
  obtain g w1 where p1: "probe h ''git'' (print Checking_dependencies w) = (g, w1)"
    by (cases "probe h ''git'' (print Checking_dependencies w)")
  define w2 where "w2 = print (if g then Git_found
      else if is_windows h then Git_missing_windows else Git_missing_other) w1"
  obtain mk w3 where p2: "probe h ''make'' w2 = (mk, w3)"
    by (cases "probe h ''make'' w2")
  define w4 where "w4 = print (if mk then Make_found
      else if is_windows h then Make_missing_windows else Make_missing_other) w3"
  obtain cm w5 where p3: "probe h ''cmake'' w4 = (cm, w5)"
    by (cases "probe h ''cmake'' w4")
  define w6 where "w6 = print (if cm then CMake_found
      else if is_windows h then CMake_missing_windows else CMake_missing_other) w5"
  have t6: "cwd w6 = cwd w \<and> (\<exists>es. trace w6 = trace w @ es \<and> list_all tool_query es)"
    using probe_frame [OF p1] probe_frame [OF p2] probe_frame [OF p3]
    by (simp add: w2_def w4_def w6_def tool_msg_def)
  show ?thesis
  proof (cases "is_windows h")
    case False
    with assms p1 p2 p3 have "w' = w6"
      by (simp add: check_dependencies_def Let_def w2_def w4_def w6_def)
    with t6 show ?thesis by simp
  next
    case True
    obtain r w7 where f: "find_msbuild h w6 = (r, w7)"
      by (cases "find_msbuild h w6")
    with assms p1 p2 p3 True
    have "w' = print (case r of None \<Rightarrow> MSBuild_missing | Some mp \<Rightarrow> MSBuild_found mp) w7"
      by (simp add: check_dependencies_def Let_def w2_def w4_def w6_def split: option.splits)
    moreover from find_msbuild_frame [OF f] t6
    have "cwd w7 = cwd w \<and> (\<exists>es. trace w7 = trace w @ es \<and> list_all tool_query es)"
      by auto
    ultimately show ?thesis
      by (auto simp: tool_msg_def split: option.splits)
  qed
qed

section \<open>The orchestrator\<close>

lemma run_unfold:
  "check_dependencies h b (print (Starting_build (project_name b)) w) = ([], b1, w1) \<Longrightarrow>
   run h b w =
     (case run_stages h b1 w1 of
        (Ok u, b2, w2) \<Rightarrow> (Returns, b2, w2)
      | (Raise e, b2, w2) \<Rightarrow> (SysExit 1, b2, print_all (troubleshooting h e) w2))"
  by (simp add: run_def)

lemma build_project_UNKNOWN:
  assumes "fst (detect_build_system h b w) = UNKNOWN"
  shows "build_project h b w =
     (Raise (Exception ''No supported build system detected''),
      b\<lparr>build_system := Some UNKNOWN\<rparr>, print None_detected (print Detecting w))"
  using detect_UNKNOWN [OF assms] by (simp add: build_project_def Let_def)

section \<open>The working directory\<close>

lemma and_then_cases:
  "and_then r f = (res, w') \<Longrightarrow>
     (\<exists>e. r = (Raise e, w') \<and> res = Raise e) \<or> (\<exists>w1. r = (Ok (), w1) \<and> f w1 = (res, w'))"
  by (cases r, cases "fst r") (auto simp: and_then_def)

lemma os_chdir_Ok:
  "os_chdir h d w = (Ok u, w') \<Longrightarrow>
     cwd w' = d \<and> files w' = files w \<and> is_dir (fs_ci h) (files w) d"
  by (auto simp: os_chdir_def is_dir_def split: option.splits node.splits)

lemma os_chdir_Raise:
  "os_chdir h d w = (Raise e, w') \<Longrightarrow> w' = w \<and> \<not> is_dir (fs_ci h) (files w) d"
  by (auto simp: os_chdir_def is_dir_def split: option.splits node.splits)

lemma cwd_run_checked [simp]: "cwd (snd (run_checked h argv d w)) = cwd w"
  using run_checked_frame [of h argv d w "fst (run_checked h argv d w)" "snd (run_checked h argv d w)"]
  by simp

lemma cwd_mkdir [simp]: "cwd (snd (mkdir h d w)) = cwd w"
  by (simp add: mkdir_def split: sum.splits)

lemma cwd_copy2 [simp]: "cwd (snd (copy2 h s d w)) = cwd w"
  by (simp add: copy2_def Let_def split: option.splits node.splits)

lemma cwd_and_then:
  assumes "cwd (snd r) = c" and "\<And>w. cwd w = c \<Longrightarrow> cwd (snd (f w)) = c"
  shows "cwd (snd (and_then r f)) = c"
  using assms by (cases r, cases "fst r") (auto simp: and_then_def)

lemma cwd_copy_files [simp]: "cwd (snd (copy_files h out fs w)) = cwd w"
proof (induction fs arbitrary: w)
  case Nil
  show ?case by simp
next
  case (Cons f fs)
  show ?case
    by (simp only: copy_files.simps) (rule cwd_and_then, simp, simp add: Cons.IH)
qed

lemma cwd_copy_by_ext [simp]: "cwd (snd (copy_by_ext h b exts w)) = cwd w"
proof (induction exts arbitrary: w)
  case Nil
  show ?case by simp
next
  case (Cons x exts)
  show ?case
    by (simp only: copy_by_ext.simps) (rule cwd_and_then, simp, simp add: Cons.IH)
qed

lemma cwd_copy_artifacts [simp]: "cwd (snd (copy_artifacts h b w)) = cwd w"
  unfolding copy_artifacts_def by (rule cwd_and_then) simp_all

lemma cwd_install_or_copy [simp]: "cwd (snd (install_or_copy h b w)) = cwd w"
proof -
  obtain r w1 where rc: "run_checked h [''make'', ''install''] None (print Running_make_install w) = (r, w1)"
    by (cases "run_checked h [''make'', ''install''] None (print Running_make_install w)")
  from run_checked_frame [OF rc] have "cwd w1 = cwd w" by simp
  with rc show ?thesis
    by (simp add: install_or_copy_def split: result.splits exn.splits)
qed

lemma run_checked_cwd: "run_checked h argv d w = (r, w') \<Longrightarrow> cwd w' = cwd w"
  by (simp add: run_checked_frame)

lemma install_or_copy_cwd: "install_or_copy h b w = (r, w') \<Longrightarrow> cwd w' = cwd w"
  using cwd_install_or_copy [of h b w] by simp

lemma autotools_cwd_Ok:
  "build_autotools_project h b w = (Ok u, w') \<Longrightarrow> cwd w' = project_root b"
  unfolding build_autotools_project_def
  by (auto dest!: and_then_cases os_chdir_Ok run_checked_cwd split: if_splits)

lemma autotools_cwd_Raise:
  "build_autotools_project h b w = (Raise e, w') \<Longrightarrow>
     cwd w' = (if is_dir (fs_ci h) (files w) (source_dir b) then source_dir b else cwd w)"
  unfolding build_autotools_project_def
  by (auto dest!: and_then_cases os_chdir_Ok os_chdir_Raise run_checked_cwd split: if_splits)

lemma make_cwd_Ok:
  "build_make_project h b w = (Ok u, w') \<Longrightarrow> cwd w' = project_root b"
  unfolding build_make_project_def
  by (auto dest!: and_then_cases os_chdir_Ok run_checked_cwd install_or_copy_cwd
           split: if_splits)

lemma make_cwd_Raise:
  "build_make_project h b w = (Raise e, w') \<Longrightarrow>
     cwd w' = (if is_dir (fs_ci h) (files w) (source_dir b) then source_dir b else cwd w)"
  unfolding build_make_project_def
  by (auto dest!: and_then_cases os_chdir_Ok os_chdir_Raise run_checked_cwd install_or_copy_cwd
           split: if_splits)

section \<open>Writing entries\<close>

lemma same_path_refl [simp]: "same_path ci p p"
  by (simp add: same_path_def)

lemma same_path_sym: "same_path ci p q \<Longrightarrow> same_path ci q p"
  by (simp add: same_path_def)

lemma same_path_trans: "same_path ci p q \<Longrightarrow> same_path ci q r \<Longrightarrow> same_path ci p r"
  by (simp add: same_path_def)

lemma lookup_Cons:
  "lookup ci ((q, n) # t) p = (if same_path ci q p then Some n else lookup ci t p)"
  by (simp add: lookup_def)

lemma lookup_Nil [simp]: "lookup ci [] p = None"
  by (simp add: lookup_def)

lemma lookup_put_same: "same_path ci p q \<Longrightarrow> lookup ci (put ci p n t) q = Some n"
proof (induction t)
  case Nil
  then show ?case by (simp add: lookup_Cons)
next
  case (Cons e t)
  obtain q' m where e: "e = (q', m)" by (cases e)
  show ?case
  proof (cases "same_path ci q' p")
    case True
    with Cons.prems have "same_path ci q' q" by (blast intro: same_path_trans)
    with True e show ?thesis by (simp add: lookup_Cons)
  next
    case False
    with Cons.prems have "\<not> same_path ci q' q"
      by (blast intro: same_path_trans same_path_sym)
    with False e Cons show ?thesis by (simp add: lookup_Cons)
  qed
qed

lemma lookup_put_other: "\<not> same_path ci p q \<Longrightarrow> lookup ci (put ci p n t) q = lookup ci t q"
proof (induction t)
  case Nil
  then show ?case by (simp add: lookup_Cons)
next
  case (Cons e t)
  obtain q' m where e: "e = (q', m)" by (cases e)
  show ?case
  proof (cases "same_path ci q' p")
    case True
    with Cons.prems have "\<not> same_path ci q' q"
      by (blast intro: same_path_trans same_path_sym)
    with True e show ?thesis by (simp add: lookup_Cons)
  next
    case False
    with e Cons show ?thesis by (simp add: lookup_Cons)
  qed
qed

lemma lookup_append:
  "lookup ci (t @ e) q = (case lookup ci t q of Some n \<Rightarrow> Some n | None \<Rightarrow> lookup ci e q)"
  by (induction t) (auto simp: lookup_Cons)

lemma make_dirs_extends:
  "make_dirs ci d k n t = Inr t' \<Longrightarrow> \<exists>e. t' = t @ e \<and> (\<forall>(p, m) \<in> set e. m = Dir)"
proof (induction n arbitrary: k t)
  case 0
  then show ?case by simp
next
  case (Suc n)
  show ?case
  proof (cases "lookup ci t (take k d)")
    case None
    with Suc.prems have "make_dirs ci d (Suc k) n (t @ [(take k d, Dir)]) = Inr t'"
      by simp
    from Suc.IH [OF this] obtain e
      where "t' = (t @ [(take k d, Dir)]) @ e" and "\<forall>(p, m) \<in> set e. m = Dir"
      by blast
    then have "t' = t @ ((take k d, Dir) # e) \<and> (\<forall>(p, m) \<in> set ((take k d, Dir) # e). m = Dir)"
      by simp
    then show ?thesis by blast
  next
    case (Some nd)
    with Suc.prems have "make_dirs ci d (Suc k) n t = Inr t'"
      by (cases nd) simp_all
    from Suc.IH [OF this] show ?thesis .
  qed
qed

lemma make_dirs_is_dir:
  "make_dirs ci d k n t = Inr t' \<Longrightarrow> k \<le> j \<Longrightarrow> j < k + n \<Longrightarrow> is_dir ci t' (take j d)"
proof (induction n arbitrary: k t)
  case 0
  then show ?case by simp
next
  case (Suc n)
  show ?case
  proof (cases "j = k")
    case False
    with Suc.prems have "Suc k \<le> j" "j < Suc k + n" by simp_all
    with Suc.prems(1) Suc.IH show ?thesis
      by (auto split: option.splits node.splits)
  next
    case True
    from Suc.prems(1) obtain t1 where t1: "make_dirs ci d (Suc k) n t1 = Inr t'"
      and d1: "lookup ci t1 (take k d) = Some Dir"
      by (auto split: option.splits node.splits simp: lookup_append lookup_Cons)
    from make_dirs_extends [OF t1] obtain e where "t' = t1 @ e" by blast
    with d1 True show ?thesis by (simp add: is_dir_def lookup_append)
  qed
qed

lemma wild_match_star [simp]: "wild_match ''*'' s"
  by (induction s) simp_all

lemma fnmatch_star [simp]: "fnmatch gci ''*'' name"
  by (simp add: fnmatch_def norm_name_def lower_char_def)

section \<open>The copy loop\<close>

lemma under_same:
  assumes "under ci d q" and "same_path ci q q'"
  shows "under ci d q'"
proof -
  from assms(2) have n: "map (norm_name ci) q = map (norm_name ci) q'"
    by (simp add: same_path_def norm_path_def)
  then have l: "length q = length q'"
    by (rule map_eq_imp_length_eq)
  from n have "take (length d) (map (norm_name ci) q) = take (length d) (map (norm_name ci) q')"
    by simp
  then have "map (norm_name ci) (take (length d) q) = map (norm_name ci) (take (length d) q')"
    by (simp only: take_map)
  with assms(1) l show ?thesis
    by (simp add: under_def same_path_def norm_path_def)
qed

lemma target_outside:
  assumes d1: "\<not> under ci src out" and d2: "\<not> under ci out src"
  shows "\<not> under ci src (out @ [nm])"
proof
  assume u: "under ci src (out @ [nm])"
  show False
  proof (cases "length src \<le> length out")
    case True
    with u have "under ci src out" by (simp add: under_def)
    with d1 show False by contradiction
  next
    case False
    with u have len: "length src = Suc (length out)"
      by (simp add: under_def)
    with u have "map (norm_name ci) src = map (norm_name ci) out @ [norm_name ci nm]"
      by (simp add: under_def same_path_def norm_path_def)
    then have "take (length out) (map (norm_name ci) src) = map (norm_name ci) out"
      by simp
    then have "map (norm_name ci) (take (length out) src) = map (norm_name ci) out"
      by (simp only: take_map)
    with len have "under ci out src"
      by (simp add: under_def same_path_def norm_path_def)
    with d2 show False by contradiction
  qed
qed

lemma is_file_lookup: "lookup ci t f = lookup ci t0 g \<Longrightarrow> is_file ci t f = is_file ci t0 g"
  by (simp add: is_file_def)

lemma access_x_lookup:
  "lookup (fs_ci h) t f = lookup (fs_ci h) t0 g \<Longrightarrow> access_x h t f = access_x h t0 g"
  by (simp add: access_x_def)

lemma copied_put:
  assumes art: "artifact h b t0 f" and look: "lookup (fs_ci h) t0 f = Some nd"
  shows "copied h b t0 (put (fs_ci h) (output_dir b @ [last f]) nd t) (output_dir b @ [last f])"
    and "copied h b t0 t q \<Longrightarrow> copied h b t0 (put (fs_ci h) (output_dir b @ [last f]) nd t) q"
proof -
  let ?ci = "fs_ci h" and ?target = "output_dir b @ [last f]"
  let ?t' = "put ?ci ?target nd t"
  have "lookup ?ci ?t' ?target = lookup ?ci t0 f"
    by (simp add: lookup_put_same look)
  with art show "copied h b t0 ?t' ?target"
    unfolding copied_def using same_path_refl by blast
  assume "copied h b t0 t q"
  then obtain g where g: "artifact h b t0 g" "same_path ?ci (output_dir b @ [last g]) q"
      "lookup ?ci t q = lookup ?ci t0 g"
    unfolding copied_def by blast
  show "copied h b t0 ?t' q"
  proof (cases "same_path ?ci ?target q")
    case True
    then have "lookup ?ci ?t' q = lookup ?ci t0 f"
      by (simp add: lookup_put_same look)
    with art True show ?thesis unfolding copied_def by blast
  next
    case False
    then have "lookup ?ci ?t' q = lookup ?ci t q"
      by (simp add: lookup_put_other)
    with g show ?thesis unfolding copied_def by auto
  qed
qed

lemma copy2_Ok:
  assumes "copy2 h f out w = (Ok u, w')" and "is_dir (fs_ci h) (files w) out"
  shows "\<exists>x c. lookup (fs_ci h) (files w) f = Some (File x c) \<and>
           files w' = put (fs_ci h) (out @ [last f]) (File x c) (files w)"
proof (cases "lookup (fs_ci h) (files w) f")
  case None
  with assms(1) show ?thesis by (simp add: copy2_def Let_def)
next
  case (Some nd)
  show ?thesis
  proof (cases nd)
    case Dir
    with Some assms(1) show ?thesis by (simp add: copy2_def Let_def)
  next
    case (File x c)
    with Some assms have "files w' = put (fs_ci h) (out @ [last f]) (File x c) (files w)"
      by (simp add: copy2_def Let_def split: if_splits) (auto simp: emit_def)
    with Some File show ?thesis by simp
  qed
qed

lemma copy_inv_dir: "copy_inv h b t0 t \<Longrightarrow> is_dir (fs_ci h) t (output_dir b)"
  by (simp add: copy_inv_def)

lemma copy_inv_source:
  "copy_inv h b t0 t \<Longrightarrow> under (fs_ci h) (source_dir b) q \<Longrightarrow>
     lookup (fs_ci h) t q = lookup (fs_ci h) t0 q"
  by (simp add: copy_inv_def)

lemma copy_inv_other:
  "copy_inv h b t0 t \<Longrightarrow> lookup (fs_ci h) t q = lookup (fs_ci h) t0 q \<or> copied h b t0 t q"
  by (simp add: copy_inv_def)

lemma copy_invI:
  assumes "is_dir (fs_ci h) t (output_dir b)"
    and "\<And>q. under (fs_ci h) (source_dir b) q \<Longrightarrow> lookup (fs_ci h) t q = lookup (fs_ci h) t0 q"
    and "\<And>q. lookup (fs_ci h) t q = lookup (fs_ci h) t0 q \<or> copied h b t0 t q"
  shows "copy_inv h b t0 t"
  unfolding copy_inv_def using assms by blast

lemma copy_step:
  assumes step: "(if is_file (fs_ci h) (files w) f \<and> access_x h (files w) f
                  then copy2 h f (output_dir b) w else (Ok (), w)) = (Ok (), w1)"
    and inv: "copy_inv h b t0 (files w)"
    and d1: "\<not> under (fs_ci h) (source_dir b) (output_dir b)"
    and d2: "\<not> under (fs_ci h) (output_dir b) (source_dir b)"
    and f: "length (source_dir b) < length f" "under (fs_ci h) (source_dir b) f"
  shows "copy_inv h b t0 (files w1) \<and>
         (\<forall>q. copied h b t0 (files w) q \<longrightarrow> copied h b t0 (files w1) q) \<and>
         (is_file (fs_ci h) t0 f \<and> access_x h t0 f \<longrightarrow>
            copied h b t0 (files w1) (output_dir b @ [last f]))"
proof -
  let ?ci = "fs_ci h" and ?out = "output_dir b" and ?src = "source_dir b"
  let ?target = "?out @ [last f]"
  from inv f(2) have same: "lookup ?ci (files w) f = lookup ?ci t0 f"
    by (rule copy_inv_source)
  note eqs = is_file_lookup [OF same] access_x_lookup [OF same]
  show ?thesis
  proof (cases "is_file ?ci t0 f \<and> access_x h t0 f")
    case False
    with step eqs have "w1 = w" by simp
    with inv False show ?thesis by blast
  next
    case True
    with f have art: "artifact h b t0 f" by (simp add: artifact_def)
    from True step eqs have c: "copy2 h f ?out w = (Ok (), w1)" by simp
    from inv have dir: "is_dir ?ci (files w) ?out" by (rule copy_inv_dir)
    from copy2_Ok [OF c dir] obtain x c
      where look0: "lookup ?ci (files w) f = Some (File x c)"
        and w1: "files w1 = put ?ci ?target (File x c) (files w)"
      by blast
    from look0 same have look: "lookup ?ci t0 f = Some (File x c)" by simp
    have out_ne: "\<not> same_path ?ci ?target ?out"
    proof
      assume "same_path ?ci ?target ?out"
      then have "length ?target = length ?out" by (rule same_path_length)
      then show False by simp
    qed
    have src_ne: "\<not> same_path ?ci ?target q" if "under ?ci ?src q" for q
    proof
      assume "same_path ?ci ?target q"
      then have "same_path ?ci q ?target" by (rule same_path_sym)
      with that have "under ?ci ?src ?target" by (rule under_same)
      with target_outside [OF d1 d2] show False by contradiction
    qed
    have "lookup ?ci (files w1) ?out = lookup ?ci (files w) ?out"
      unfolding w1 using out_ne by (rule lookup_put_other)
    with dir have 1: "is_dir ?ci (files w1) ?out"
      by (simp add: is_dir_def)
    have 2: "lookup ?ci (files w1) q = lookup ?ci t0 q" if "under ?ci ?src q" for q
    proof -
      from that have "\<not> same_path ?ci ?target q" by (rule src_ne)
      then have "lookup ?ci (files w1) q = lookup ?ci (files w) q"
        unfolding w1 by (rule lookup_put_other)
      also from inv that have "\<dots> = lookup ?ci t0 q" by (rule copy_inv_source)
      finally show ?thesis .
    qed
    have mono: "copied h b t0 (files w1) q" if "copied h b t0 (files w) q" for q
      unfolding w1 using art look that by (rule copied_put(2))
    have here: "copied h b t0 (files w1) ?target"
      unfolding w1 using art look by (rule copied_put(1))
    have 3: "lookup ?ci (files w1) q = lookup ?ci t0 q \<or> copied h b t0 (files w1) q" for q
    proof (cases "same_path ?ci ?target q")
      case True
      then have "lookup ?ci (files w1) q = Some (File x c)"
        unfolding w1 by (rule lookup_put_same)
      with look have "lookup ?ci (files w1) q = lookup ?ci t0 f" by simp
      with art True have "copied h b t0 (files w1) q"
        unfolding copied_def by blast
      then show ?thesis ..
    next
      case False
      then have e: "lookup ?ci (files w1) q = lookup ?ci (files w) q"
        unfolding w1 by (rule lookup_put_other)
      from inv have "lookup ?ci (files w) q = lookup ?ci t0 q \<or> copied h b t0 (files w) q"
        by (rule copy_inv_other)
      then show ?thesis
      proof
        assume "lookup ?ci (files w) q = lookup ?ci t0 q"
        with e show ?thesis by simp
      next
        assume "copied h b t0 (files w) q"
        then have "copied h b t0 (files w1) q" by (rule mono)
        then show ?thesis ..
      qed
    qed
    from 1 2 3 have "copy_inv h b t0 (files w1)" by (rule copy_invI)
    with mono here show ?thesis by blast
  qed
qed

lemma copy_files_inv:
  assumes "copy_files h (output_dir b) fs w = (Ok (), w')"
    and "copy_inv h b t0 (files w)"
    and d1: "\<not> under (fs_ci h) (source_dir b) (output_dir b)"
    and d2: "\<not> under (fs_ci h) (output_dir b) (source_dir b)"
    and "\<forall>f \<in> set fs. length (source_dir b) < length f \<and> under (fs_ci h) (source_dir b) f"
  shows "copy_inv h b t0 (files w') \<and>
         (\<forall>q. copied h b t0 (files w) q \<longrightarrow> copied h b t0 (files w') q) \<and>
         (\<forall>f \<in> set fs. is_file (fs_ci h) t0 f \<and> access_x h t0 f \<longrightarrow>
            copied h b t0 (files w') (output_dir b @ [last f]))"
  using assms(1,2,5)
proof (induction fs arbitrary: w)
  case Nil
  then show ?case by simp
next
  case (Cons f fs)
  from Cons.prems(1) obtain w1
    where step: "(if is_file (fs_ci h) (files w) f \<and> access_x h (files w) f
                  then copy2 h f (output_dir b) w else (Ok (), w)) = (Ok (), w1)"
      and rest: "copy_files h (output_dir b) fs w1 = (Ok (), w')"
    by (simp only: copy_files.simps) (blast dest: and_then_cases)
  from Cons.prems(3) have f: "length (source_dir b) < length f" "under (fs_ci h) (source_dir b) f"
    and fs: "\<forall>f \<in> set fs. length (source_dir b) < length f \<and> under (fs_ci h) (source_dir b) f"
    by simp_all
  note s = copy_step [OF step Cons.prems(2) d1 d2 f]
  note r = Cons.IH [OF rest s [THEN conjunct1] fs]
  note s2 = s [THEN conjunct2, THEN conjunct1] and s3 = s [THEN conjunct2, THEN conjunct2]
  note r2 = r [THEN conjunct2, THEN conjunct1] and r3 = r [THEN conjunct2, THEN conjunct2]
  show ?case
  proof (intro conjI allI impI ballI)
    show "copy_inv h b t0 (files w')" by (rule r [THEN conjunct1])
  next
    fix q
    assume "copied h b t0 (files w) q"
    with s2 have "copied h b t0 (files w1) q" by blast
    with r2 show "copied h b t0 (files w') q" by blast
  next
    fix g
    assume g: "g \<in> set (f # fs)" and a: "is_file (fs_ci h) t0 g \<and> access_x h t0 g"
    show "copied h b t0 (files w') (output_dir b @ [last g])"
    proof (cases "g = f")
      case True
      with a s3 have "copied h b t0 (files w1) (output_dir b @ [last g])" by blast
      with r2 show ?thesis by blast
    next
      case False
      with g have "g \<in> set fs" by simp
      with a r3 show ?thesis by blast
    qed
  qed
qed

lemma rglob_under:
  "f \<in> set (rglob ci gci t d pat) \<Longrightarrow> length d < length f \<and> under ci d f"
  by (auto simp: rglob_def split: if_splits)

lemma copy_by_ext_inv:
  assumes "copy_by_ext h b exts w = (Ok (), w')"
    and "copy_inv h b t0 (files w)"
    and d1: "\<not> under (fs_ci h) (source_dir b) (output_dir b)"
    and d2: "\<not> under (fs_ci h) (output_dir b) (source_dir b)"
  shows "copy_inv h b t0 (files w') \<and>
         (\<forall>q. copied h b t0 (files w) q \<longrightarrow> copied h b t0 (files w') q)"
  using assms(1,2)
proof (induction exts arbitrary: w)
  case Nil
  then show ?case by simp
next
  case (Cons x exts)
  from Cons.prems(1) obtain w1
    where pass: "copy_files h (output_dir b)
                   (rglob (fs_ci h) (is_windows h) (files w) (source_dir b) (''*'' @ x)) w = (Ok (), w1)"
      and rest: "copy_by_ext h b exts w1 = (Ok (), w')"
    by (simp only: copy_by_ext.simps) (blast dest: and_then_cases)
  have "\<forall>f \<in> set (rglob (fs_ci h) (is_windows h) (files w) (source_dir b) (''*'' @ x)).
          length (source_dir b) < length f \<and> under (fs_ci h) (source_dir b) f"
    by (blast dest: rglob_under)
  note s = copy_files_inv [OF pass Cons.prems(2) d1 d2 this]
  note r = Cons.IH [OF rest s [THEN conjunct1]]
  note s2 = s [THEN conjunct2, THEN conjunct1] and r2 = r [THEN conjunct2]
  show ?case
  proof (intro conjI allI impI)
    show "copy_inv h b t0 (files w')" by (rule r [THEN conjunct1])
  next
    fix q
    assume "copied h b t0 (files w) q"
    with s2 have "copied h b t0 (files w1) q" by blast
    with r2 show "copied h b t0 (files w') q" by blast
  qed
qed

lemma lookup_extended:
  assumes "\<forall>(p, m) \<in> set e. m = Dir" and "is_file ci (t @ e) g"
  shows "lookup ci (t @ e) g = lookup ci t g"
proof (cases "lookup ci t g")
  case (Some n)
  then show ?thesis by (simp add: lookup_append)
next
  case None
  with assms(2) obtain x c where "lookup ci e g = Some (File x c)"
    by (auto simp: is_file_def lookup_append split: option.splits node.splits)
  then obtain q where "(q, File x c) \<in> set e"
    by (blast dest: lookup_Some_mem)
  with assms(1) show ?thesis by blast
qed

lemma artifact_extended:
  assumes e: "\<forall>(p, m) \<in> set e. m = Dir"
  shows "artifact h b (t @ e) g \<longleftrightarrow> artifact h b t g"
proof
  assume a: "artifact h b (t @ e) g"
  then have "is_file (fs_ci h) (t @ e) g" by (simp add: artifact_def)
  with e have l: "lookup (fs_ci h) (t @ e) g = lookup (fs_ci h) t g" by (rule lookup_extended)
  from a show "artifact h b t g"
    unfolding artifact_def is_file_lookup [OF l] access_x_lookup [OF l] .
next
  assume a: "artifact h b t g"
  then obtain x c where "lookup (fs_ci h) t g = Some (File x c)"
    by (auto simp: artifact_def is_file_def split: option.splits node.splits)
  then have l: "lookup (fs_ci h) (t @ e) g = lookup (fs_ci h) t g"
    by (simp add: lookup_append)
  from a show "artifact h b (t @ e) g"
    unfolding artifact_def is_file_lookup [OF l] access_x_lookup [OF l] .
qed

lemma copied_extended:
  assumes e: "\<forall>(p, m) \<in> set e. m = Dir" and c: "copied h b (t @ e) t' q"
  shows "copied h b t t' q"
proof -
  from c obtain g where g: "artifact h b (t @ e) g"
      "same_path (fs_ci h) (output_dir b @ [last g]) q"
      "lookup (fs_ci h) t' q = lookup (fs_ci h) (t @ e) g"
    unfolding copied_def by blast
  from g(1) have "is_file (fs_ci h) (t @ e) g" by (simp add: artifact_def)
  with e have "lookup (fs_ci h) (t @ e) g = lookup (fs_ci h) t g" by (rule lookup_extended)
  with g(3) have "lookup (fs_ci h) t' q = lookup (fs_ci h) t g" by simp
  moreover from g(1) have "artifact h b t g" by (simp add: artifact_extended [OF e])
  ultimately show ?thesis unfolding copied_def using g(2) by blast
qed

lemma mkdir_Ok:
  assumes "mkdir h d w = (Ok u, w')" and "d \<noteq> []"
  shows "\<exists>e. files w' = files w @ e \<and> (\<forall>(p, m) \<in> set e. m = Dir) \<and> is_dir (fs_ci h) (files w') d"
proof -
  from assms(1) obtain t where m: "make_dirs (fs_ci h) d 1 (length d) (files w) = Inr t"
    and w': "files w' = t"
    by (auto simp: mkdir_def split: sum.splits)
  from make_dirs_extends [OF m] obtain e where e: "t = files w @ e" "\<forall>(p, m) \<in> set e. m = Dir"
    by blast
  from assms(2) have "1 \<le> length d" "length d < 1 + length d"
    by (cases d; simp)+
  with m have "is_dir (fs_ci h) t (take (length d) d)" by (rule make_dirs_is_dir)
  with e w' show ?thesis by simp
qed

lemma copy_artifacts_result:
  assumes ok: "copy_artifacts h b w = (Ok (), w')"
    and d1: "\<not> under (fs_ci h) (source_dir b) (output_dir b)"
    and d2: "\<not> under (fs_ci h) (output_dir b) (source_dir b)"
    and src: "is_dir (fs_ci h) (files w) (source_dir b)"
  shows "is_dir (fs_ci h) (files w') (output_dir b)"
    and "(f, n) \<in> set (files w) \<Longrightarrow> artifact h b (files w) f \<Longrightarrow>
           copied h b (files w) (files w') (output_dir b @ [last f])"
    and "is_file (fs_ci h) (files w') q \<Longrightarrow>
           lookup (fs_ci h) (files w') q = lookup (fs_ci h) (files w) q \<or>
           copied h b (files w) (files w') q"
proof -
  let ?ci = "fs_ci h" and ?out = "output_dir b" and ?src = "source_dir b"
  from d2 have ne: "?out \<noteq> []"
    by (auto simp: under_def same_path_def norm_path_def)
  from ok obtain wm where mk: "mkdir h ?out (print Make_install_failed w) = (Ok (), wm)"
    and loop: "copy_by_ext h b extensions wm = (Ok (), w')"
    unfolding copy_artifacts_def by (blast dest: and_then_cases)
  from mkdir_Ok [OF mk ne] obtain e where tm: "files wm = files w @ e"
    and e: "\<forall>(p, m) \<in> set e. m = Dir" and dir: "is_dir ?ci (files wm) ?out"
    by auto
  from dir have inv0: "copy_inv h b (files wm) (files wm)"
    by (simp add: copy_inv_def)
  define others where "others = [''.exe'', ''.dll'', ''.so'', ''.dylib'']"
  have ext: "extensions = [] # others"
    by (simp add: extensions_def others_def)
  from loop
  have "and_then (copy_files h ?out (rglob ?ci (is_windows h) (files wm) ?src (''*'' @ [])) wm)
          (copy_by_ext h b others) = (Ok (), w')"
    by (simp only: ext copy_by_ext.simps)
  then obtain w1
    where pass0: "copy_files h ?out (rglob ?ci (is_windows h) (files wm) ?src (''*'' @ [])) wm
                    = (Ok (), w1)"
      and rest: "copy_by_ext h b others w1 = (Ok (), w')"
    by (blast dest: and_then_cases)
  from pass0
  have pass: "copy_files h ?out (rglob ?ci (is_windows h) (files wm) ?src ''*'') wm = (Ok (), w1)"
    by (simp only: append_Nil2)
  have "\<forall>f \<in> set (rglob ?ci (is_windows h) (files wm) ?src ''*'').
          length ?src < length f \<and> under ?ci ?src f"
    by (blast dest: rglob_under)
  note s = copy_files_inv [OF pass inv0 d1 d2 this]
  note r = copy_by_ext_inv [OF rest s [THEN conjunct1] d1 d2]
  from r have inv: "copy_inv h b (files wm) (files w')" ..
  then show "is_dir ?ci (files w') ?out" by (rule copy_inv_dir)
  {
    assume mem: "(f, n) \<in> set (files w)" and art: "artifact h b (files w) f"
    from src have "is_dir ?ci (files wm) ?src"
      by (simp add: tm is_dir_def lookup_append)
    moreover from mem have "f \<in> set (map fst (files wm))"
      by (force simp: tm)
    moreover from art have "length ?src < length f" "under ?ci ?src f"
      by (simp_all add: artifact_def)
    ultimately have in_scan: "f \<in> set (rglob ?ci (is_windows h) (files wm) ?src ''*'')"
      by (simp add: rglob_def)
    from art have "artifact h b (files wm) f"
      by (simp add: tm artifact_extended [OF e])
    then have "is_file ?ci (files wm) f \<and> access_x h (files wm) f"
      by (simp add: artifact_def)
    with s [THEN conjunct2, THEN conjunct2] in_scan
    have "copied h b (files wm) (files w1) (?out @ [last f])" by blast
    with r [THEN conjunct2] have "copied h b (files wm) (files w') (?out @ [last f])" by blast
    then show "copied h b (files w) (files w') (?out @ [last f])"
      unfolding tm using e by (rule copied_extended [rotated])
  }
  {
    assume isf: "is_file ?ci (files w') q"
    from inv have "lookup ?ci (files w') q = lookup ?ci (files wm) q \<or> copied h b (files wm) (files w') q"
      by (rule copy_inv_other)
    then show "lookup ?ci (files w') q = lookup ?ci (files w) q \<or> copied h b (files w) (files w') q"
    proof
      assume l: "lookup ?ci (files w') q = lookup ?ci (files wm) q"
      with isf have "is_file ?ci (files w @ e) q"
        by (simp add: tm [symmetric] is_file_def)
      with e have "lookup ?ci (files w @ e) q = lookup ?ci (files w) q" by (rule lookup_extended)
      with l show ?thesis by (simp add: tm)
    next
      assume "copied h b (files wm) (files w') q"
      then have "copied h b (files w) (files w') q"
        unfolding tm using e by (rule copied_extended [rotated])
      then show ?thesis ..
    qed
  }
qed

lemma norm_source_output: "norm_name ci ''source'' \<noteq> norm_name ci ''output''"
  by (simp add: norm_name_def lower_char_def)

lemma init_dirs_disjoint:
  "\<not> under ci (source_dir (init h url br)) (output_dir (init h url br)) \<and>
   \<not> under ci (output_dir (init h url br)) (source_dir (init h url br))"
  using norm_source_output [of ci]
  by (auto simp: init_def Let_def pjoin_def under_def same_path_def norm_path_def)

section \<open>Claims\<close>

subsection \<open>The dependency gate\<close>

text \<open>
  Claim C1. Whenever \<^verbatim>\<open>check_dependencies\<close> returns a non-empty list of missing tools,
  \<^verbatim>\<open>run\<close> prints one more message and ends the process with status 1. Nothing else
  happens after the check: the working directory is the one the run started in, and
  every event of the whole run is a message about the tools or one of the queries that
  look for them; in particular no stage and no driver was entered (the first message
  of none of them was printed), and no directory was removed or made, no repository
  cloned and no build command started.
\<close>

theorem run_missing_tools:
  assumes "fst (check_dependencies h b (print (Starting_build (project_name b)) w)) \<noteq> []"
  shows
    "run h b w =
       (SysExit 1,
        fst (snd (check_dependencies h b (print (Starting_build (project_name b)) w))),
        print Missing_required_tools
          (snd (snd (check_dependencies h b (print (Starting_build (project_name b)) w))))) \<and>
     exit_status (fst (run h b w)) = 1 \<and>
     cwd (snd (snd (run h b w))) = cwd w \<and>
     (\<exists>es. trace (snd (snd (run h b w))) = trace w @ es \<and> list_all tool_query es \<and>
           (\<forall>m. stage_entry m \<longrightarrow> Print m \<notin> set es))"
proof -
  obtain missing b1 w1
    where c: "check_dependencies h b (print (Starting_build (project_name b)) w) = (missing, b1, w1)"
    by (cases "check_dependencies h b (print (Starting_build (project_name b)) w)")
  with assms have m: "missing \<noteq> []" by simp
  from c m have r: "run h b w = (SysExit 1, b1, print Missing_required_tools w1)"
    by (simp add: run_def)
  from check_dependencies_frame [OF c]
  obtain es where es: "trace w1 = trace w @ Print (Starting_build (project_name b)) # es"
      and q: "list_all tool_query es" and d: "cwd w1 = cwd w"
    by auto
  let ?es = "Print (Starting_build (project_name b)) # es @ [Print Missing_required_tools]"
  have all: "list_all tool_query ?es"
    using q by (simp add: tool_msg_def)
  have "Print m \<notin> set ?es" if "stage_entry m" for m
  proof
    assume "Print m \<in> set ?es"
    with all have "tool_query (Print m)" unfolding list_all_iff by blast
    with that show False by (simp add: tool_msg_not_stage)
  qed
  with all have "trace (print Missing_required_tools w1) = trace w @ ?es \<and> list_all tool_query ?es \<and>
      (\<forall>m. stage_entry m \<longrightarrow> Print m \<notin> set ?es)"
    using es by simp
  then have "\<exists>es. trace (print Missing_required_tools w1) = trace w @ es \<and> list_all tool_query es \<and>
      (\<forall>m. stage_entry m \<longrightarrow> Print m \<notin> set es)"
    by (rule exI)
  with r c d show ?thesis by simp
qed

theorem run_missing_tools_witness:
  "fst (check_dependencies (linux [] [] [''cmake'']) hello
          (print (Starting_build (project_name hello)) fresh)) \<noteq> [] \<and>
   exit_status (fst (run (linux [] [] [''cmake'']) hello fresh)) = 1 \<and>
   cwd (snd (snd (run (linux [] [] [''cmake'']) hello fresh))) = cwd fresh"
proof -
  have 1: "fst (check_dependencies (linux [] [] [''cmake'']) hello
          (print (Starting_build (project_name hello)) fresh)) \<noteq> []"
    by code_simp
  note t = run_missing_tools [OF 1]
  from 1 t [THEN conjunct2, THEN conjunct1] t [THEN conjunct2, THEN conjunct2, THEN conjunct1]
  show ?thesis by (intro conjI)
qed

subsection \<open>Detection\<close>

text \<open>
  Claim C2. \<^verbatim>\<open>detect_build_system\<close> returns one of the four kinds, decided in a fixed
  order in which the first match wins: \<^verbatim>\<open>CMakeLists.txt\<close> gives CMake, whatever else is
  there (a \<^verbatim>\<open>Makefile\<close> included); otherwise \<^verbatim>\<open>configure.ac\<close> or \<^verbatim>\<open>configure\<close> gives
  Autotools (\<^verbatim>\<open>configure\<close> alone is enough); otherwise a Make marker gives Make;
  otherwise the result is Unknown. Detection changes neither the files nor the working
  directory.
\<close>

theorem detect_build_system_precedence:
  "(marker h b w ''CMakeLists.txt'' \<longrightarrow> fst (detect_build_system h b w) = CMAKE) \<and>
   (\<not> marker h b w ''CMakeLists.txt''
      \<and> (marker h b w ''configure.ac'' \<or> marker h b w ''configure'')
      \<longrightarrow> fst (detect_build_system h b w) = AUTOTOOLS) \<and>
   (\<not> marker h b w ''CMakeLists.txt'' \<and> \<not> marker h b w ''configure.ac''
      \<and> \<not> marker h b w ''configure''
      \<and> (marker h b w ''Makefile''
           \<or> glob (fs_ci h) (is_windows h) (files w) (source_dir b) ''makefile*'' \<noteq> [])
      \<longrightarrow> fst (detect_build_system h b w) = MAKE) \<and>
   (\<not> marker h b w ''CMakeLists.txt'' \<and> \<not> marker h b w ''configure.ac''
      \<and> \<not> marker h b w ''configure'' \<and> \<not> marker h b w ''Makefile''
      \<and> glob (fs_ci h) (is_windows h) (files w) (source_dir b) ''makefile*'' = []
      \<longrightarrow> fst (detect_build_system h b w) = UNKNOWN) \<and>
   files (snd (detect_build_system h b w)) = files w \<and>
   cwd (snd (detect_build_system h b w)) = cwd w"
  by (simp add: fst_detect detect_frame)

theorem detect_build_system_precedence_witness:
  "fst (detect_build_system (linux [] [] []) hello
         (checkout [(''CMakeLists.txt'', File False []), (''Makefile'', File False [])])) = CMAKE \<and>
   fst (detect_build_system (linux [] [] []) hello
         (checkout [(''configure'', File True [])])) = AUTOTOOLS"
proof -
  have 1: "marker (linux [] [] []) hello
             (checkout [(''CMakeLists.txt'', File False []), (''Makefile'', File False [])])
             ''CMakeLists.txt''"
    by code_simp
  have 2: "\<not> marker (linux [] [] []) hello (checkout [(''configure'', File True [])])
               ''CMakeLists.txt''"
    by code_simp
  have 3: "marker (linux [] [] []) hello (checkout [(''configure'', File True [])]) ''configure''"
    by code_simp
  from 1 have a: "fst (detect_build_system (linux [] [] []) hello
         (checkout [(''CMakeLists.txt'', File False []), (''Makefile'', File False [])])) = CMAKE"
    using detect_build_system_precedence [of "linux [] [] []" hello
        "checkout [(''CMakeLists.txt'', File False []), (''Makefile'', File False [])]"]
    by (elim conjE) (erule mp)
  from 2 3 have b: "fst (detect_build_system (linux [] [] []) hello
         (checkout [(''configure'', File True [])])) = AUTOTOOLS"
    using detect_build_system_precedence [of "linux [] [] []" hello
        "checkout [(''configure'', File True [])]"]
    by (elim conjE) (erule mp, intro conjI disjI2)
  from a b show ?thesis by (rule conjI)
qed

subsection \<open>The fallback of the Make driver\<close>

text \<open>
  Claim C3 and the comment of the fallback (\<^verbatim>\<open>Copy all executables and libraries\<close>, with
  the list of extensions \<^verbatim>\<open>.exe\<close>, \<^verbatim>\<open>.dll\<close>, \<^verbatim>\<open>.so\<close>, \<^verbatim>\<open>.dylib\<close>) say that libraries
  are copied by their extension. The copy loop does not do that: it tests
  \<^verbatim>\<open>file.is_file() and os.access(file, os.X_OK)\<close> for every file, whatever its extension.
  On a Linux host where \<^verbatim>\<open>make install\<close> returns 2, the Make driver run on a tree with
  an executable \<^verbatim>\<open>app\<close> and a \<^verbatim>\<open>libfoo.so\<close> without an execute bit returns normally
  with \<^verbatim>\<open>app\<close> in the output directory and without \<^verbatim>\<open>libfoo.so\<close> there.
\<close>

theorem build_make_project_skips_library:
  "is_file False
     (files (checkout [(''Makefile'', File False []), (''app'', File True ''ELF''),
                       (''libfoo.so'', File False ''ELF'')]))
     [[], ''opt'', ''builder'', ''source'', ''hello'', ''libfoo.so''] \<and>
   fst (build_make_project (linux [] [[''make'', ''install'']] []) hello
          (checkout [(''Makefile'', File False []), (''app'', File True ''ELF''),
                     (''libfoo.so'', File False ''ELF'')])) = Ok () \<and>
   is_file False
     (files (snd (build_make_project (linux [] [[''make'', ''install'']] []) hello
          (checkout [(''Makefile'', File False []), (''app'', File True ''ELF''),
                     (''libfoo.so'', File False ''ELF'')]))))
     [[], ''opt'', ''builder'', ''output'', ''hello'', ''app''] \<and>
   \<not> path_exists False
     (files (snd (build_make_project (linux [] [[''make'', ''install'']] []) hello
          (checkout [(''Makefile'', File False []), (''app'', File True ''ELF''),
                     (''libfoo.so'', File False ''ELF'')]))))
     [[], ''opt'', ''builder'', ''output'', ''hello'', ''libfoo.so'']"
  by code_simp

subsection \<open>The working directory of the drivers\<close>

text \<open>
  Claim C4, as stated, fails: neither driver saves the working directory or restores it
  when a step fails. With \<^verbatim>\<open>make -j\<close> returning 2, both drivers started in the project
  root raise \<^verbatim>\<open>CalledProcessError\<close> and leave the process in the source directory.
\<close>

theorem drivers_working_directory_counterexample:
  "cwd ((checkout [(''configure'', File True [])])\<lparr>cwd := project_root hello\<rparr>) = project_root hello \<and>
   fst (build_autotools_project (linux [] [[''make'', ''-j'']] []) hello
          ((checkout [(''configure'', File True [])])\<lparr>cwd := project_root hello\<rparr>))
     = Raise (CalledProcessError 2 [''make'', ''-j'']) \<and>
   cwd (snd (build_autotools_project (linux [] [[''make'', ''-j'']] []) hello
          ((checkout [(''configure'', File True [])])\<lparr>cwd := project_root hello\<rparr>)))
     = source_dir hello \<and>
   fst (build_make_project (linux [] [[''make'', ''-j'']] []) hello
          ((checkout [(''Makefile'', File False [])])\<lparr>cwd := project_root hello\<rparr>))
     = Raise (CalledProcessError 2 [''make'', ''-j'']) \<and>
   cwd (snd (build_make_project (linux [] [[''make'', ''-j'']] []) hello
          ((checkout [(''Makefile'', File False [])])\<lparr>cwd := project_root hello\<rparr>)))
     = source_dir hello \<and>
   source_dir hello \<noteq> project_root hello"
  by code_simp

text \<open>
  Claim C4, amended. A driver of Autotools or Make that returns normally leaves the
  process in the project root (the directory of the script, which is the directory the
  driver started in only if the run started there). A driver that raises leaves the
  process in the source directory when it had entered it, and where it was otherwise.
\<close>

theorem drivers_working_directory:
  "(build_autotools_project h b w = (Ok (), w') \<longrightarrow> cwd w' = project_root b) \<and>
   (build_autotools_project h b w = (Raise e, w') \<longrightarrow>
      cwd w' = (if is_dir (fs_ci h) (files w) (source_dir b) then source_dir b else cwd w)) \<and>
   (build_make_project h b w = (Ok (), w') \<longrightarrow> cwd w' = project_root b) \<and>
   (build_make_project h b w = (Raise e, w') \<longrightarrow>
      cwd w' = (if is_dir (fs_ci h) (files w) (source_dir b) then source_dir b else cwd w))"
  using autotools_cwd_Ok [of h b w "()" w'] autotools_cwd_Raise [of h b w e w']
    make_cwd_Ok [of h b w "()" w'] make_cwd_Raise [of h b w e w']
  by blast

theorem drivers_working_directory_witness:
  "cwd (snd (build_autotools_project (linux [] [] []) hello (checkout [(''configure'', File True [])])))
     = project_root hello \<and>
   cwd (snd (build_make_project (linux [] [[''make'', ''-j'']] []) hello
               (checkout [(''Makefile'', File False [])])))
     = (if is_dir (fs_ci (linux [] [[''make'', ''-j'']] []))
             (files (checkout [(''Makefile'', File False [])])) (source_dir hello)
        then source_dir hello else cwd (checkout [(''Makefile'', File False [])]))"
proof -
  let ?w = "checkout [(''configure'', File True [])]"
  let ?v = "checkout [(''Makefile'', File False [])]"
  let ?g = "linux [] [[''make'', ''-j'']] []"
  have 1: "build_autotools_project (linux [] [] []) hello ?w
             = (Ok (), snd (build_autotools_project (linux [] [] []) hello ?w))"
    by code_simp
  have 2: "build_make_project ?g hello ?v
             = (Raise (CalledProcessError 2 [''make'', ''-j'']), snd (build_make_project ?g hello ?v))"
    by code_simp
  from 1 have a: "cwd (snd (build_autotools_project (linux [] [] []) hello ?w)) = project_root hello"
    by (rule drivers_working_directory [THEN conjunct1, THEN mp])
  from 2 have b: "cwd (snd (build_make_project ?g hello ?v))
     = (if is_dir (fs_ci ?g) (files ?v) (source_dir hello) then source_dir hello else cwd ?v)"
    by (rule drivers_working_directory
          [THEN conjunct2, THEN conjunct2, THEN conjunct2, THEN mp])
  from a b show ?thesis by (rule conjI)
qed

subsection \<open>The project name\<close>

text \<open>
  Claim C5 describes the project name as the last segment of the URL without a trailing
  \<^verbatim>\<open>.git\<close>. The code calls \<^verbatim>\<open>replace('.git', '')\<close>, which removes every occurrence: the
  repository \<^verbatim>\<open>octocat.github.io\<close> is named \<^verbatim>\<open>octocathub.io\<close>, with or without the
  suffix. The repository \<^verbatim>\<open>hello.git\<close> is named \<^verbatim>\<open>hello\<close>.
\<close>

theorem derive_project_name_inner_git:
  "derive_project_name ''https://github.com/octocat/octocat.github.io'' = ''octocathub.io'' \<and>
   derive_project_name ''https://github.com/octocat/octocat.github.io.git'' = ''octocathub.io'' \<and>
   derive_project_name ''https://github.com/octocat/hello.git'' = ''hello''"
  by code_simp

subsection \<open>The Make pattern\<close>

text \<open>
  Claim C6, as stated, fails: the pattern \<^verbatim>\<open>makefile*\<close> is matched by the rule of the
  platform, which tells upper from lower case everywhere but on Windows. On a Linux
  host a directory that holds only \<^verbatim>\<open>MAKEFILE\<close>, or only \<^verbatim>\<open>Makefile.am\<close>, is
  classified Unknown, although both names match the pattern when case is ignored.
\<close>

theorem detect_make_pattern_counterexample:
  "fnmatch True ''makefile*'' ''MAKEFILE'' \<and>
   \<not> marker (linux [] [] []) hello (checkout [(''MAKEFILE'', File False [])]) ''CMakeLists.txt'' \<and>
   \<not> marker (linux [] [] []) hello (checkout [(''MAKEFILE'', File False [])]) ''configure.ac'' \<and>
   \<not> marker (linux [] [] []) hello (checkout [(''MAKEFILE'', File False [])]) ''configure'' \<and>
   fst (detect_build_system (linux [] [] []) hello (checkout [(''MAKEFILE'', File False [])])) = UNKNOWN \<and>
   fnmatch True ''makefile*'' ''Makefile.am'' \<and>
   \<not> marker (linux [] [] []) hello (checkout [(''Makefile.am'', File False [])]) ''CMakeLists.txt'' \<and>
   \<not> marker (linux [] [] []) hello (checkout [(''Makefile.am'', File False [])]) ''configure.ac'' \<and>
   \<not> marker (linux [] [] []) hello (checkout [(''Makefile.am'', File False [])]) ''configure'' \<and>
   fst (detect_build_system (linux [] [] []) hello (checkout [(''Makefile.am'', File False [])])) = UNKNOWN"
  by code_simp

text \<open>
  Claim C6, amended. In a source directory without a marker of CMake or Autotools,
  detection returns Make whenever some entry of the directory matches \<^verbatim>\<open>makefile*\<close>
  by the rule of the platform: without regard to case on Windows, exactly elsewhere.
\<close>

theorem detect_make_pattern:
  assumes "\<not> marker h b w ''CMakeLists.txt''"
    and "\<not> marker h b w ''configure.ac''"
    and "\<not> marker h b w ''configure''"
    and "is_dir (fs_ci h) (files w) (source_dir b)"
    and "(q, n) \<in> set (files w)"
    and "length q = Suc (length (source_dir b))"
    and "under (fs_ci h) (source_dir b) q"
    and "fnmatch (is_windows h) ''makefile*'' (last q)"
  shows "fst (detect_build_system h b w) = MAKE"
proof -
  from assms(4-8) have "q \<in> set (glob (fs_ci h) (is_windows h) (files w) (source_dir b) ''makefile*'')"
    by (force simp: glob_def)
  then have "glob (fs_ci h) (is_windows h) (files w) (source_dir b) ''makefile*'' \<noteq> []"
    by auto
  with assms(1-3) show ?thesis by (simp add: fst_detect)
qed

theorem detect_make_pattern_witness:
  "fst (detect_build_system windows hello (checkout [(''MAKEFILE'', File False [])])) = MAKE \<and>
   fst (detect_build_system (linux [] [] []) hello (checkout [(''makefile.gcc'', File False [])])) = MAKE"
proof -
  have w: "fst (detect_build_system windows hello (checkout [(''MAKEFILE'', File False [])])) = MAKE"
    by (rule detect_make_pattern [where q = "[[], ''opt'', ''builder'', ''source'', ''hello'', ''MAKEFILE'']" and n = "File False []"])
       code_simp+
  have l: "fst (detect_build_system (linux [] [] []) hello (checkout [(''makefile.gcc'', File False [])])) = MAKE"
    by (rule detect_make_pattern [where q = "[[], ''opt'', ''builder'', ''source'', ''hello'', ''makefile.gcc'']" and n = "File False []"])
       code_simp+
  from w l show ?thesis by simp
qed

subsection \<open>An unknown build system\<close>

text \<open>
  Claim C7. When the tools are there, cleaning and cloning succeed and detection returns
  Unknown, \<^verbatim>\<open>build_project\<close> raises, \<^verbatim>\<open>run\<close> reports the error and ends the process with
  status 1. After the checkout the run only prints: no driver is entered, no command
  is started, and the files are as the clone left them.
\<close>

theorem run_unknown_build_system:
  assumes "check_dependencies h b (print (Starting_build (project_name b)) w) = ([], b1, w1)"
    and "clean_directories h b1 w1 = (Ok (), w2)"
    and "clone_repository h b1 w2 = (Ok (), w3)"
    and "fst (detect_build_system h b1 w3) = UNKNOWN"
  shows
    "run h b w =
       (SysExit 1, b1\<lparr>build_system := Some UNKNOWN\<rparr>,
        print_all (troubleshooting h (Exception ''No supported build system detected''))
          (print None_detected (print Detecting w3))) \<and>
     exit_status (fst (run h b w)) = 1 \<and>
     files (snd (snd (run h b w))) = files w3 \<and>
     cwd (snd (snd (run h b w))) = cwd w3 \<and>
     trace (snd (snd (run h b w))) =
       trace w3 @ map Print ([Detecting, None_detected]
                   @ troubleshooting h (Exception ''No supported build system detected''))"
proof -
  have "run h b w =
       (SysExit 1, b1\<lparr>build_system := Some UNKNOWN\<rparr>,
        print_all (troubleshooting h (Exception ''No supported build system detected''))
          (print None_detected (print Detecting w3)))"
    using assms(2,3) build_project_UNKNOWN [OF assms(4)]
    by (simp add: run_unfold [OF assms(1)] run_stages_def)
  then show ?thesis by simp
qed

theorem run_unknown_build_system_witness:
  "exit_status (fst (run (linux [(''README.md'', File False [])] [] []) hello fresh)) = 1 \<and>
   path_exists False (files (snd (snd (run (linux [(''README.md'', File False [])] [] []) hello fresh))))
     [[], ''opt'', ''builder'', ''source'', ''hello'', ''README.md'']"
proof -
  let ?h = "linux [(''README.md'', File False [])] [] []"
  let ?w1 = "snd (snd (check_dependencies ?h hello (print (Starting_build (project_name hello)) fresh)))"
  let ?w2 = "snd (clean_directories ?h hello ?w1)"
  let ?w3 = "snd (clone_repository ?h hello ?w2)"
  have 1: "check_dependencies ?h hello (print (Starting_build (project_name hello)) fresh)
             = ([], hello, ?w1)"
    by code_simp
  have 2: "clean_directories ?h hello ?w1 = (Ok (), ?w2)"
    by code_simp
  have 3: "clone_repository ?h hello ?w2 = (Ok (), ?w3)"
    by code_simp
  have 4: "fst (detect_build_system ?h hello ?w3) = UNKNOWN"
    by code_simp
  have 5: "path_exists False (files ?w3) [[], ''opt'', ''builder'', ''source'', ''hello'', ''README.md'']"
    by code_simp
  note t = run_unknown_build_system [OF 1 2 3 4]
  from t [THEN conjunct2, THEN conjunct1]
  have a: "exit_status (fst (run ?h hello fresh)) = 1" .
  from t [THEN conjunct2, THEN conjunct2, THEN conjunct1]
  have "files (snd (snd (run ?h hello fresh))) = files ?w3" .
  with 5 have "path_exists False (files (snd (snd (run ?h hello fresh))))
     [[], ''opt'', ''builder'', ''source'', ''hello'', ''README.md'']"
    by (rule ssubst [where P = "\<lambda>t. path_exists False t [[], ''opt'', ''builder'', ''source'', ''hello'', ''README.md'']", rotated])
  with a show ?thesis by (rule conjI)
qed

subsection \<open>The handler of \<^verbatim>\<open>run\<close>\<close>

text \<open>
  Claim C8. Once the tools are there, an exception that leaves \<^verbatim>\<open>clean_directories\<close>,
  \<^verbatim>\<open>clone_repository\<close> or \<^verbatim>\<open>build_project\<close> (detection and the driver) ends the stages,
  and \<^verbatim>\<open>run\<close> handles it once: after everything that had happened when it was raised,
  \<^verbatim>\<open>run\<close> prints the error, the header of the checklist and its points (the URL, the
  build system with its three kinds, the permissions, the dependencies and, on Windows
  only, the build tools), each once and in this order, does nothing else, and ends the
  process with status 1. When all stages succeed \<^verbatim>\<open>run\<close> prints that the build is
  complete and then the location of the output directory, and returns: the process
  ends with status 0. (The \<^verbatim>\<open>CalledProcessError\<close> of \<^verbatim>\<open>make install\<close> never leaves the
  Make driver.)
\<close>

theorem run_catches_stage_errors:
  fixes h :: host
  defines "checklist \<equiv> \<lambda>e.
    [Print (Error_during e), Print Tips_header, Print Tip_url, Print Tip_build_system,
     Print Tip_cmake, Print Tip_autotools, Print Tip_make, Print Tip_permissions,
     Print Tip_dependencies] @ (if is_windows h then [Print Tip_build_tools] else [])"
  assumes "check_dependencies h b (print (Starting_build (project_name b)) w) = ([], b1, w1)"
  shows
    "(\<forall>e w2. clean_directories h b1 w1 = (Raise e, w2) \<longrightarrow>
        run h b w = (SysExit 1, b1, w2\<lparr>trace := trace w2 @ checklist e\<rparr>)) \<and>
     (\<forall>e w2 w3. clean_directories h b1 w1 = (Ok (), w2) \<and>
        clone_repository h b1 w2 = (Raise e, w3) \<longrightarrow>
        run h b w = (SysExit 1, b1, w3\<lparr>trace := trace w3 @ checklist e\<rparr>)) \<and>
     (\<forall>e w2 w3 b4 w4. clean_directories h b1 w1 = (Ok (), w2) \<and>
        clone_repository h b1 w2 = (Ok (), w3) \<and>
        build_project h b1 w3 = (Raise e, b4, w4) \<longrightarrow>
        run h b w = (SysExit 1, b4, w4\<lparr>trace := trace w4 @ checklist e\<rparr>)) \<and>
     (\<forall>w2 w3 b4 w4. clean_directories h b1 w1 = (Ok (), w2) \<and>
        clone_repository h b1 w2 = (Ok (), w3) \<and>
        build_project h b1 w3 = (Ok (), b4, w4) \<longrightarrow>
        run h b w =
          (Returns, b4,
           w4\<lparr>trace := trace w4 @ [Print Completed, Print (Output_found_in (output_dir b4))]\<rparr>)) \<and>
     exit_status (fst (run h b w)) = (if fst (run_stages h b1 w1) = Ok () then 0 else 1)"
proof -
  have p: "print_all (troubleshooting h e) v = v\<lparr>trace := trace v @ checklist e\<rparr>" for e v
    by (simp add: print_all_def troubleshooting_def print_def emit_def checklist_def)
  have q: "print (Output_found_in d) (print Completed v)
             = v\<lparr>trace := trace v @ [Print Completed, Print (Output_found_in d)]\<rparr>" for d v
    by (simp add: print_def emit_def)
  show ?thesis
    unfolding p [symmetric] q [symmetric]
    by (auto simp: run_unfold [OF assms(2)] run_stages_def split: prod.splits result.splits)
qed

theorem run_catches_stage_errors_witness:
  "run (linux [(''CMakeLists.txt'', File False [])] [] []) hello fresh =
     (Returns, hello\<lparr>build_system := Some CMAKE\<rparr>,
      (snd (snd (build_project (linux [(''CMakeLists.txt'', File False [])] [] []) hello
         (snd (clone_repository (linux [(''CMakeLists.txt'', File False [])] [] []) hello
           (snd (clean_directories (linux [(''CMakeLists.txt'', File False [])] [] []) hello
             (snd (snd (check_dependencies (linux [(''CMakeLists.txt'', File False [])] [] [])
                hello (print (Starting_build (project_name hello)) fresh)))))))))))
      \<lparr>trace := trace (snd (snd (build_project (linux [(''CMakeLists.txt'', File False [])] [] []) hello
         (snd (clone_repository (linux [(''CMakeLists.txt'', File False [])] [] []) hello
           (snd (clean_directories (linux [(''CMakeLists.txt'', File False [])] [] []) hello
             (snd (snd (check_dependencies (linux [(''CMakeLists.txt'', File False [])] [] [])
                hello (print (Starting_build (project_name hello)) fresh)))))))))))
         @ [Print Completed, Print (Output_found_in [[], ''opt'', ''builder'', ''output'', ''hello''])]\<rparr>) \<and>
   exit_status (fst (run (linux [(''CMakeLists.txt'', File False [])] [] []) hello fresh)) = 0 \<and>
   run (linux [] [clone_cmd (linux [] [] []) hello] []) hello fresh =
     (SysExit 1, hello,
      (snd (clone_repository (linux [] [clone_cmd (linux [] [] []) hello] []) hello
         (snd (clean_directories (linux [] [clone_cmd (linux [] [] []) hello] []) hello
           (snd (snd (check_dependencies (linux [] [clone_cmd (linux [] [] []) hello] [])
              hello (print (Starting_build (project_name hello)) fresh))))))))
      \<lparr>trace := trace (snd (clone_repository (linux [] [clone_cmd (linux [] [] []) hello] []) hello
         (snd (clean_directories (linux [] [clone_cmd (linux [] [] []) hello] []) hello
           (snd (snd (check_dependencies (linux [] [clone_cmd (linux [] [] []) hello] [])
              hello (print (Starting_build (project_name hello)) fresh))))))))
         @ [Print (Error_during (CalledProcessError 2
                     [''git'', ''clone'', hello_url, ''/opt/builder/source/hello''])),
            Print Tips_header, Print Tip_url, Print Tip_build_system, Print Tip_cmake,
            Print Tip_autotools, Print Tip_make, Print Tip_permissions,
            Print Tip_dependencies]\<rparr>) \<and>
   exit_status (fst (run (linux [] [clone_cmd (linux [] [] []) hello] []) hello fresh)) = 1"
proof -
  let ?h = "linux [(''CMakeLists.txt'', File False [])] [] []"
  let ?w1 = "snd (snd (check_dependencies ?h hello (print (Starting_build (project_name hello)) fresh)))"
  let ?w2 = "snd (clean_directories ?h hello ?w1)"
  let ?w3 = "snd (clone_repository ?h hello ?w2)"
  let ?w4 = "snd (snd (build_project ?h hello ?w3))"
  have 1: "check_dependencies ?h hello (print (Starting_build (project_name hello)) fresh)
             = ([], hello, ?w1)"
    by code_simp
  have 2: "clean_directories ?h hello ?w1 = (Ok (), ?w2) \<and>
           clone_repository ?h hello ?w2 = (Ok (), ?w3) \<and>
           build_project ?h hello ?w3 = (Ok (), hello\<lparr>build_system := Some CMAKE\<rparr>, ?w4)"
    by code_simp
  have o: "output_dir (hello\<lparr>build_system := Some CMAKE\<rparr>)
             = [[], ''opt'', ''builder'', ''output'', ''hello'']"
    by code_simp
  have nw: "is_windows ?h = False"
    by code_simp
  note t = run_catches_stage_errors [OF 1]
  from t [THEN conjunct2, THEN conjunct2, THEN conjunct2, THEN conjunct1,
          THEN spec, THEN spec, THEN spec, THEN spec, THEN mp, OF 2]
  have a: "run ?h hello fresh =
     (Returns, hello\<lparr>build_system := Some CMAKE\<rparr>,
      ?w4\<lparr>trace := trace ?w4 @ [Print Completed,
             Print (Output_found_in [[], ''opt'', ''builder'', ''output'', ''hello''])]\<rparr>)"
    unfolding o .
  then have a': "exit_status (fst (run ?h hello fresh)) = 0"
    by (simp only: fst_conv exit_status.simps)
  let ?g = "linux [] [clone_cmd (linux [] [] []) hello] []"
  let ?v1 = "snd (snd (check_dependencies ?g hello (print (Starting_build (project_name hello)) fresh)))"
  let ?v2 = "snd (clean_directories ?g hello ?v1)"
  let ?v3 = "snd (clone_repository ?g hello ?v2)"
  have 3: "check_dependencies ?g hello (print (Starting_build (project_name hello)) fresh)
             = ([], hello, ?v1)"
    by code_simp
  have 4: "clean_directories ?g hello ?v1 = (Ok (), ?v2) \<and>
           clone_repository ?g hello ?v2
             = (Raise (CalledProcessError 2
                  [''git'', ''clone'', hello_url, ''/opt/builder/source/hello'']), ?v3)"
    by code_simp
  have ng: "is_windows ?g = False"
    by code_simp
  from run_catches_stage_errors
         [OF 3, THEN conjunct2, THEN conjunct1, THEN spec, THEN spec, THEN spec, THEN mp, OF 4]
  have b: "run ?g hello fresh =
     (SysExit 1, hello,
      ?v3\<lparr>trace := trace ?v3
         @ [Print (Error_during (CalledProcessError 2
                     [''git'', ''clone'', hello_url, ''/opt/builder/source/hello''])),
            Print Tips_header, Print Tip_url, Print Tip_build_system, Print Tip_cmake,
            Print Tip_autotools, Print Tip_make, Print Tip_permissions,
            Print Tip_dependencies]\<rparr>)"
    unfolding ng if_False append_Nil2 .
  then have b': "exit_status (fst (run ?g hello fresh)) = 1"
    by (simp only: fst_conv exit_status.simps)
  from a a' b b' show ?thesis by (intro conjI)
qed

subsection \<open>Cloning\<close>



subsection \<open>Detection without a checkout\<close>



end
